theory Spec2Isabelle
  imports Complex_Main
begin

section \<open>Python values and errors\<close>

text \<open>
  The exceptions the modelled code raises. The design document speaks of two error
  kinds, ConfigurationError and ValidationError; the Python sources raise the built-in
  \<open>ValueError\<close> for both (and \<open>TypeError\<close> for an argument of the wrong Python
  type), so these are the constructors. \<open>AttributeError\<close> is what Python raises for a
  method call on \<open>None\<close>.
\<close>

datatype error = TypeError | ValueError | AttributeError

text \<open>
  A floating-point entry of a numpy array: a finite value (an ideal real stands for the
  double), an infinity or a NaN. A \<open>scalar\<close> is an entry of a possibly complex array,
  with its real and imaginary part; an entry of a real array has imaginary part
  \<open>Fin 0\<close>.
\<close>

datatype npfloat = Fin real | PosInf | NegInf | NaN

datatype scalar = Scalar (re_part: npfloat) (im_part: npfloat)

text \<open>A numpy array: its shape and its entries in row-major order.\<close>

record ndarray =
  shape :: "nat list"
  elems :: "scalar list"

definition ndim :: "ndarray \<Rightarrow> nat" where
  "ndim a = length (shape a)"

definition wf_ndarray :: "ndarray \<Rightarrow> bool" where
  "wf_ndarray a = (length (elems a) = prod_list (shape a))"

definition real_scalar :: "real \<Rightarrow> scalar" where
  "real_scalar x = Scalar (Fin x) (Fin 0)"

definition array1d :: "real list \<Rightarrow> ndarray" where
  "array1d xs = \<lparr>shape = [length xs], elems = map real_scalar xs\<rparr>"

fun finite_f :: "npfloat \<Rightarrow> bool" where
  "finite_f (Fin x) = True"
| "finite_f PosInf = False"
| "finite_f NegInf = False"
| "finite_f NaN = False"

fun lt0_f :: "npfloat \<Rightarrow> bool" where
  "lt0_f (Fin x) = (x < 0)"
| "lt0_f NegInf = True"
| "lt0_f PosInf = False"
| "lt0_f NaN = False"

fun eq0_f :: "npfloat \<Rightarrow> bool" where
  "eq0_f (Fin x) = (x = 0)"
| "eq0_f PosInf = False"
| "eq0_f NegInf = False"
| "eq0_f NaN = False"

text \<open>\<open>np.isfinite\<close>: both parts finite.\<close>

definition np_isfinite :: "scalar \<Rightarrow> bool" where
  "np_isfinite s = (finite_f (re_part s) \<and> finite_f (im_part s))"

text \<open>\<open>weights < 0\<close>: numpy orders complex entries lexicographically.\<close>

definition np_less0 :: "scalar \<Rightarrow> bool" where
  "np_less0 s = (lt0_f (re_part s) \<or> (eq0_f (re_part s) \<and> lt0_f (im_part s)))"

text \<open>\<open>np.iscomplex\<close>: the imaginary part is not zero.\<close>

definition np_iscomplex :: "scalar \<Rightarrow> bool" where
  "np_iscomplex s = (\<not> eq0_f (im_part s))"

text \<open>\<open>weights == 0\<close>.\<close>

definition np_eq0 :: "scalar \<Rightarrow> bool" where
  "np_eq0 s = (eq0_f (re_part s) \<and> eq0_f (im_part s))"

section \<open>Double-precision square root\<close>

text \<open>
  \<open>np.sqrt\<close> works on doubles. A finite double is an integer multiple of the spacing
  of its binade: between \<open>2 ^ e\<close> and \<open>2 ^ (e + 1)\<close> the doubles are the multiples of
  \<open>2 ^ (e - 52)\<close>. Conversions and \<open>np.sqrt\<close> round to the nearest double, a tie
  going to the even multiple. Overflow and subnormal numbers are left out: a number of
  rows is below \<open>2 ^ 63\<close>, and it and its square root are 0 or at least 1.
\<close>

definition round_half_even :: "real \<Rightarrow> int" where
  "round_half_even x =
     (let f = \<lfloor>x\<rfloor>
      in if x - of_int f < 1 / 2 then f
         else if 1 / 2 < x - of_int f then f + 1
         else if even f then f else f + 1)"

definition float64_ulp :: "real \<Rightarrow> real" where
  "float64_ulp x = 2 powr (of_int \<lfloor>log 2 x\<rfloor> - 52)"

definition float64 :: "real \<Rightarrow> real" where
  "float64 x =
     (if x = 0 then 0
      else sgn x * (of_int (round_half_even (\<bar>x\<bar> / float64_ulp \<bar>x\<bar>)) * float64_ulp \<bar>x\<bar>))"

text \<open>
  \<open>np.sqrt(n)\<close> for a Python integer \<open>n\<close>: the integer is converted to a double,
  and the result is the correctly rounded square root of that double.
\<close>

definition np_sqrt :: "nat \<Rightarrow> real" where
  "np_sqrt n = float64 (sqrt (float64 (real n)))"

section \<open>ts\_bs/utils/validate.py\<close>

text \<open>
  \<open>validate_weights\<close>: five checks in the order of the source, each raising
  \<open>ValueError\<close>; \<open>Inr ()\<close> is the normal return.
\<close>

definition validate_weights :: "ndarray \<Rightarrow> error + unit" where
  "validate_weights weights =
     (if \<not> list_all np_isfinite (elems weights) then Inl ValueError
      else if list_ex np_less0 (elems weights) then Inl ValueError
      else if list_ex np_iscomplex (elems weights) then Inl ValueError
      else if list_all np_eq0 (elems weights) then Inl ValueError
      else if (ndim weights = 2 \<and> shape weights ! 1 \<noteq> 1) \<or> ndim weights > 2
        then Inl ValueError
      else Inr ())"

text \<open>
  The defects the specification lists for a weight array: a non-finite value, a negative
  value, a complex value, all zeros, or two dimensions with more than one column.
\<close>

definition listed_weight_defect :: "ndarray \<Rightarrow> bool" where
  "listed_weight_defect w =
     (list_ex (\<lambda>s. \<not> np_isfinite s) (elems w)
      \<or> list_ex np_less0 (elems w)
      \<or> list_ex np_iscomplex (elems w)
      \<or> list_all np_eq0 (elems w)
      \<or> (ndim w = 2 \<and> shape w ! 1 > 1))"

text \<open>
  An element of the list handed to \<open>validate_block_indices\<close>: a numpy array, of which
  the checks read the number of dimensions, whether the dtype is an integer dtype, and
  the entries (flattened), or some other Python object. The argument itself is a Python
  list or not.
\<close>

record index_array =
  ia_ndim :: nat
  ia_integer :: bool
  ia_elems :: "int list"

datatype block_obj = Array index_array | NotArray

datatype block_arg = PyList "block_obj list" | NotList

fun is_array :: "block_obj \<Rightarrow> bool" where
  "is_array (Array a) = True"
| "is_array NotArray = False"

fun the_array :: "block_obj \<Rightarrow> index_array" where
  "the_array (Array a) = a"
| "the_array NotArray = \<lparr>ia_ndim = 0, ia_integer = False, ia_elems = []\<rparr>"

definition index_block :: "int list \<Rightarrow> block_obj" where
  "index_block xs = Array \<lparr>ia_ndim = 1, ia_integer = True, ia_elems = xs\<rparr>"

text \<open>
  \<open>validate_block_indices\<close>, check by check as in the source. The last check is
  \<open>np.all(block < input_length)\<close>; the source has no lower bound.
\<close>

fun validate_block_indices :: "block_arg \<Rightarrow> int \<Rightarrow> error + unit" where
  "validate_block_indices NotList input_length = Inl TypeError"
| "validate_block_indices (PyList block_indices) input_length =
     (if length block_indices = 0 then Inl ValueError
      else if \<not> list_all is_array block_indices then Inl TypeError
      else if \<not> list_all (\<lambda>b. ia_ndim (the_array b) = 1 \<and> ia_integer (the_array b))
                 block_indices then Inl ValueError
      else if \<not> list_all (\<lambda>b. length (ia_elems (the_array b)) > 0) block_indices
        then Inl ValueError
      else if \<not> list_all (\<lambda>b. list_all (\<lambda>i. i < input_length) (ia_elems (the_array b)))
                 block_indices then Inl ValueError
      else Inr ())"

section \<open>The random stream\<close>

text \<open>
  The block-length families of the design document.
\<close>

datatype distribution =
  DNone | DGeometric | DExponential | DGamma | DBeta | DLognormal | DWeibull | DPareto
  | DPoisson | DUniform

text \<open>
  The caller-owned generator (numpy's \<open>Generator\<close>, an external library): the
  sequence of uniform variates its seed determines, the position reached in it, and the
  sampling law of each family, which turns a uniform variate into a raw draw of the
  family with the given mean. Consuming a draw advances the position; nothing else
  changes a generator.
\<close>

record generator =
  gen_uniforms :: "nat \<Rightarrow> real"
  gen_variate :: "distribution \<Rightarrow> nat \<Rightarrow> real \<Rightarrow> real"
  gen_pos :: nat

definition next_uniform :: "generator \<Rightarrow> real \<times> generator" where
  "next_uniform g = (gen_uniforms g (gen_pos g), g\<lparr>gen_pos := Suc (gen_pos g)\<rparr>)"

text \<open>
  Two generators in the same stream state: the same position, the same sampling laws,
  and the same variates from the position on. What was drawn before the position is
  past and is never read again.
\<close>

definition same_stream :: "generator \<Rightarrow> generator \<Rightarrow> bool" where
  "same_stream r1 r2 =
     (gen_pos r1 = gen_pos r2 \<and> gen_variate r1 = gen_variate r2
      \<and> (\<forall>i\<ge>gen_pos r1. gen_uniforms r1 i = gen_uniforms r2 i))"

section \<open>LengthSampler\<close>

text \<open>
  Modelled from the spec: the class BlockLengthSampler (utils/block\_length\_sampler.py)
  is not among the sources. Section 4.1: an unknown distribution name is an error at
  construction; the fixed family returns the average length; every other family rounds
  its raw draw to the nearest integer; the result is floored at 1, or at the minimum
  block length if that is larger (the contract of \<open>sample_length\<close>, and section 6,
  promise an integer that is at least the minimum block length for every family).
\<close>

record block_length_sampler =
  avg_block_length :: nat
  bls_distribution :: distribution

definition distribution_of_name :: "string option \<Rightarrow> error + distribution" where
  "distribution_of_name name =
     (case name of
        None \<Rightarrow> Inr DNone
      | Some s \<Rightarrow>
          (if s = ''none'' then Inr DNone
           else if s = ''geometric'' then Inr DGeometric
           else if s = ''exponential'' then Inr DExponential
           else if s = ''gamma'' then Inr DGamma
           else if s = ''beta'' then Inr DBeta
           else if s = ''lognormal'' then Inr DLognormal
           else if s = ''weibull'' then Inr DWeibull
           else if s = ''pareto'' then Inr DPareto
           else if s = ''poisson'' then Inr DPoisson
           else if s = ''uniform'' then Inr DUniform
           else Inl ValueError))"

definition BlockLengthSampler :: "nat \<Rightarrow> string option \<Rightarrow> error + block_length_sampler" where
  "BlockLengthSampler avg name =
     (case distribution_of_name name of
        Inl e \<Rightarrow> Inl e
      | Inr d \<Rightarrow> Inr \<lparr>avg_block_length = avg, bls_distribution = d\<rparr>)"

definition sample_length :: "block_length_sampler \<Rightarrow> nat \<Rightarrow> generator \<Rightarrow> nat \<times> generator" where
  "sample_length s min_len g =
     (if bls_distribution s = DNone
      then (max 1 (max min_len (avg_block_length s)), g)
      else
        (let (u, g') = next_uniform g;
             raw = gen_variate g (bls_distribution s) (avg_block_length s) u
         in (max 1 (max min_len (nat (round raw))), g')))"

lemma sample_length_pos: "(len, g') = sample_length s min_len g \<Longrightarrow> 1 \<le> len"
  by (auto simp: sample_length_def Let_def split: if_splits prod.splits)

section \<open>BlockGenerator\<close>

text \<open>
  Modelled from the spec: the class BlockGenerator (src/block\_generator.py) is not among
  the sources. Section 4.2 and section 7: the constructor rejects a non-positive input
  length, and a minimum or an average block length above the input length, before any
  draw. The overlap length is the step between the starts of overlapping blocks; a step
  of 0 would never advance, so the constructor takes it as a positive integer as well
  (\<open>validate_integers\<close> with \<open>min_value = 1\<close> is the repository's check for such
  parameters). Both lengths default to 1.
\<close>

record block_generator =
  bg_sampler :: block_length_sampler
  bg_input_length :: nat
  bg_wrap_around_flag :: bool
  bg_overlap_length :: nat
  bg_min_block_length :: nat

definition BlockGenerator ::
  "block_length_sampler \<Rightarrow> nat \<Rightarrow> bool \<Rightarrow> nat option \<Rightarrow> nat option
     \<Rightarrow> error + block_generator" where
  "BlockGenerator sampler input_length wrap overlap_len min_len =
     (let ol = (case overlap_len of None \<Rightarrow> 1 | Some v \<Rightarrow> v);
          ml = (case min_len of None \<Rightarrow> 1 | Some v \<Rightarrow> v)
      in if input_length < 1 then Inl ValueError
         else if input_length < ml then Inl ValueError
         else if input_length < avg_block_length sampler then Inl ValueError
         else if ol < 1 then Inl ValueError
         else Inr \<lparr>bg_sampler = sampler, bg_input_length = input_length,
                   bg_wrap_around_flag = wrap, bg_overlap_length = ol,
                   bg_min_block_length = ml\<rparr>)"

text \<open>
  Where a block that starts at \<open>start\<close> with the drawn length \<open>len\<close> stops. Without
  overlap and wrap-around, a remainder after the block that is shorter than the minimum
  block length is merged into the block.
\<close>

definition block_stop :: "block_generator \<Rightarrow> bool \<Rightarrow> nat \<Rightarrow> nat \<Rightarrow> nat" where
  "block_stop g overlap_flag start len =
     (let stop = start + len
      in if \<not> bg_wrap_around_flag g \<and> \<not> overlap_flag \<and> stop < bg_input_length g
            \<and> bg_input_length g - stop < bg_min_block_length g
         then bg_input_length g else stop)"

text \<open>
  The indices of the block \<open>[start, stop)\<close>: modulo the input length under wrap-around,
  truncated at the input length otherwise.
\<close>

definition block_range :: "block_generator \<Rightarrow> nat \<Rightarrow> nat \<Rightarrow> nat list" where
  "block_range g start stop =
     (if bg_wrap_around_flag g then map (\<lambda>i. i mod bg_input_length g) [start..<stop]
      else [start..<min stop (bg_input_length g)])"

text \<open>
  The loop of \<open>generate_blocks\<close>: the cursor \<open>start\<close>, the blocks emitted so far, the
  generator state. It stops when a block reaches the end of the series. The next block
  starts where this one stopped, or, with overlap, one overlap length after this one's
  start.
\<close>

function blocks_loop ::
  "block_generator \<Rightarrow> bool \<Rightarrow> nat \<Rightarrow> nat list list \<Rightarrow> generator \<Rightarrow> nat list list \<times> generator" where
  "blocks_loop g overlap_flag start acc r =
     (if bg_input_length g \<le> start then (acc, r)
      else
        (let (len, r') = sample_length (bg_sampler g) (bg_min_block_length g) r;
             stop = block_stop g overlap_flag start len;
             block = block_range g start stop
         in if bg_input_length g \<le> stop then (acc @ [block], r')
            else blocks_loop g overlap_flag
                   (if overlap_flag then start + max 1 (bg_overlap_length g) else stop)
                   (acc @ [block]) r'))"
  by pat_completeness auto
termination
proof (relation "measure (\<lambda>(g, overlap_flag, start, acc, r). bg_input_length g - start)")
  show "wf (measure (\<lambda>(g, overlap_flag, start, acc, r). bg_input_length g - start))"
    by simp
next
  fix g :: block_generator and overlap_flag :: bool and start :: nat
    and acc :: "nat list list" and r :: generator and x :: "nat \<times> generator" and len :: nat
    and r' :: generator and stop :: nat and block :: "nat list"
  assume a: "\<not> bg_input_length g \<le> start"
    and x: "x = sample_length (bg_sampler g) (bg_min_block_length g) r"
    and lr: "(len, r') = x"
    and stop: "stop = block_stop g overlap_flag start len"
  have "1 \<le> len"
    using sample_length_pos [of len r' "bg_sampler g" "bg_min_block_length g" r] x lr
    by simp
  then have "start < stop"
    using stop by (simp add: block_stop_def Let_def)
  then show "((g, overlap_flag,
        if overlap_flag then start + max 1 (bg_overlap_length g) else stop,
        acc @ [block], r'),
       g, overlap_flag, start, acc, r)
      \<in> measure (\<lambda>(g, overlap_flag, start, acc, r). bg_input_length g - start)"
    using a by auto
qed

declare blocks_loop.simps [simp del]

definition generate_blocks :: "block_generator \<Rightarrow> bool \<Rightarrow> generator \<Rightarrow> nat list list \<times> generator" where
  "generate_blocks g overlap_flag r = blocks_loop g overlap_flag 0 [] r"

section \<open>BlockResampler\<close>

text \<open>
  Modelled from the spec: the class BlockResampler (src/block\_resampler.py) is not among
  the sources. Section 4.3. A weight source is a function from a size to an array (a
  fixed array is the constant function). The constructor validates the blocks (a
  non-empty list of non-empty blocks with every index below the number of rows) and
  prepares the two kinds of weights once; \<open>resample_block_indices_and_data\<close> then
  only draws.
\<close>

type_synonym weight_source = "nat \<Rightarrow> ndarray"

type_synonym array2d = "real list list"

fun float_value :: "npfloat \<Rightarrow> real" where
  "float_value (Fin x) = x"
| "float_value PosInf = 0"
| "float_value NegInf = 0"
| "float_value NaN = 0"

definition scalar_value :: "scalar \<Rightarrow> real" where
  "scalar_value s = float_value (re_part s)"

definition check_blocks :: "nat \<Rightarrow> nat list list \<Rightarrow> error + unit" where
  "check_blocks n bs =
     (if bs = [] then Inl ValueError
      else if list_ex (\<lambda>b. b = []) bs then Inl ValueError
      else if list_ex (\<lambda>b. list_ex (\<lambda>i. n \<le> i) b) bs then Inl ValueError
      else Inr ())"

text \<open>
  Step 1: the per-position weights are validated by \<open>validate_weights\<close>; a block's
  weight is the sum of the weights of its positions; the block weights are normalised to
  sum to 1. Block weights that are all zero cannot be normalised and are rejected like
  an all-zero weight array. Without a source the blocks are equally likely.
\<close>

definition prepare_block_weights ::
  "nat \<Rightarrow> nat list list \<Rightarrow> weight_source option \<Rightarrow> error + real list" where
  "prepare_block_weights n bs src =
     (case src of
        None \<Rightarrow> Inr (replicate (length bs) (1 / real (length bs)))
      | Some f \<Rightarrow>
          (case validate_weights (f n) of
             Inl e \<Rightarrow> Inl e
           | Inr u \<Rightarrow>
               if length (elems (f n)) \<noteq> n then Inl ValueError
               else
                 (let position_weights = map scalar_value (elems (f n));
                      bw = map (\<lambda>b. sum_list (map (\<lambda>i. position_weights ! i) b)) bs;
                      tot = sum_list bw
                  in if tot = 0 then Inl ValueError
                     else Inr (map (\<lambda>x. x / tot) bw))))"

text \<open>
  Step 2: the window is evaluated at the block's length, validated, and clipped to a
  floor of 0.1; without a source the multiplier is all ones.
\<close>

definition taper_for :: "weight_source option \<Rightarrow> nat \<Rightarrow> error + real list" where
  "taper_for src n =
     (case src of
        None \<Rightarrow> Inr (replicate n 1)
      | Some f \<Rightarrow>
          (case validate_weights (f n) of
             Inl e \<Rightarrow> Inl e
           | Inr u \<Rightarrow>
               if length (elems (f n)) \<noteq> n then Inl ValueError
               else Inr (map (\<lambda>s. max (1 / 10) (scalar_value s)) (elems (f n)))))"

fun prepare_tapered_weights ::
  "weight_source option \<Rightarrow> nat list list \<Rightarrow> error + real list list" where
  "prepare_tapered_weights src [] = Inr []"
| "prepare_tapered_weights src (b # bs) =
     (case taper_for src (length b) of
        Inl e \<Rightarrow> Inl e
      | Inr t \<Rightarrow>
          (case prepare_tapered_weights src bs of
             Inl e \<Rightarrow> Inl e
           | Inr ts \<Rightarrow> Inr (t # ts)))"

record block_resampler =
  br_X :: array2d
  br_blocks :: "nat list list"
  br_block_weights :: "real list"
  br_tapered_weights :: "real list list"

definition BlockResampler ::
  "array2d \<Rightarrow> nat list list \<Rightarrow> weight_source option \<Rightarrow> weight_source option
     \<Rightarrow> error + block_resampler" where
  "BlockResampler X bs bw tw =
     (case check_blocks (length X) bs of
        Inl e \<Rightarrow> Inl e
      | Inr u \<Rightarrow>
          (case prepare_block_weights (length X) bs bw of
             Inl e \<Rightarrow> Inl e
           | Inr ws \<Rightarrow>
               (case prepare_tapered_weights tw bs of
                  Inl e \<Rightarrow> Inl e
                | Inr ts \<Rightarrow>
                    Inr \<lparr>br_X = X, br_blocks = bs, br_block_weights = ws,
                         br_tapered_weights = ts\<rparr>)))"

text \<open>
  A draw from the categorical distribution \<open>ps\<close> with the uniform variate \<open>u\<close>: the
  first index whose cumulative probability exceeds \<open>u\<close>, the last index otherwise.
\<close>

fun categorical :: "real list \<Rightarrow> real \<Rightarrow> nat" where
  "categorical [] u = 0"
| "categorical [p] u = 0"
| "categorical (p # q # ps) u = (if u < p then 0 else Suc (categorical (q # ps) (u - p)))"

text \<open>The rows of a block, each multiplied by its tapering weight.\<close>

definition tapered_rows :: "array2d \<Rightarrow> nat list \<Rightarrow> real list \<Rightarrow> array2d" where
  "tapered_rows X block taper = map (\<lambda>(i, t). map (\<lambda>v. t * v) (X ! i)) (zip block taper)"

text \<open>
  Step 3: draw blocks until the cumulative length reaches the number of rows; the last
  block drawn is truncated to fit. A resampler built by the constructor never meets the
  two error branches (its blocks are non-empty and there is a weight vector for each).
\<close>

function resample_loop ::
  "block_resampler \<Rightarrow> nat \<Rightarrow> nat list list \<Rightarrow> array2d list \<Rightarrow> generator
     \<Rightarrow> error + (nat list list \<times> array2d list \<times> generator)" where
  "resample_loop br tot idxs datas r =
     (if length (br_X br) \<le> tot then Inr (idxs, datas, r)
      else
        (let k = categorical (br_block_weights br) (fst (next_uniform r));
             r' = snd (next_uniform r)
         in if length (br_blocks br) \<le> k \<or> length (br_tapered_weights br) \<le> k
            then Inl ValueError
            else
              (let block = take (length (br_X br) - tot) (br_blocks br ! k);
                   data = tapered_rows (br_X br) block (br_tapered_weights br ! k)
               in if block = [] then Inl ValueError
                  else resample_loop br (tot + length block) (idxs @ [block])
                         (datas @ [data]) r')))"
  by pat_completeness auto
termination
  by (relation "measure (\<lambda>(br, tot, idxs, datas, r). length (br_X br) - tot)")
    (auto simp: min_def neq_Nil_conv)

declare resample_loop.simps [simp del]

definition resample_block_indices_and_data ::
  "block_resampler \<Rightarrow> generator \<Rightarrow> error + (nat list list \<times> array2d list \<times> generator)" where
  "resample_block_indices_and_data br r = resample_loop br 0 [] [] r"

text \<open>
  What the constructor establishes of a resampler: a non-empty list of non-empty blocks of
  row indices, one selection weight for each block, and one tapering weight for each
  position of each block.
\<close>

definition wf_resampler :: "block_resampler \<Rightarrow> bool" where
  "wf_resampler br =
     (br_blocks br \<noteq> [] \<and> [] \<notin> set (br_blocks br)
      \<and> (\<forall>b\<in>set (br_blocks br). \<forall>i\<in>set b. i < length (br_X br))
      \<and> length (br_block_weights br) = length (br_blocks br)
      \<and> length (br_tapered_weights br) = length (br_blocks br)
      \<and> (\<forall>k<length (br_blocks br).
            length (br_tapered_weights br ! k) = length (br_blocks br ! k)))"

section \<open>bootstrap.py: BaseTimeSeriesBootstrap\<close>

text \<open>
  A Python value handed to a property setter: an \<open>Integral\<close>, \<open>None\<close>, or a value
  of another type.
\<close>

datatype pyval = PyInt int | PyNone | PyOther

text \<open>
  The instance state of the base class. The generator is one object that the instance,
  the length sampler, the block generator and the resampler all refer to; the model keeps
  it in the instance, and every function that draws returns the instance with the
  generator advanced.
\<close>

record base_bootstrap =
  n_bootstraps :: nat
  rng :: generator

text \<open>The setter of \<open>n_bootstraps\<close>: the value to store, or the exception.\<close>

definition set_n_bootstraps :: "pyval \<Rightarrow> error + nat" where
  "set_n_bootstraps v =
     (case v of
        PyInt n \<Rightarrow> if \<not> n > 0 then Inl ValueError else Inr (nat n)
      | PyNone \<Rightarrow> Inl TypeError
      | PyOther \<Rightarrow> Inl TypeError)"

text \<open>
  \<open>np.diff\<close>, and the base class's \<open>_check_input\<close>: all rows of \<open>X\<close> have the
  same length.
\<close>

definition np_diff :: "int list \<Rightarrow> int list" where
  "np_diff xs = map (\<lambda>(a, b). b - a) (zip xs (tl xs))"

definition base_check_input :: "array2d \<Rightarrow> error + unit" where
  "base_check_input X =
     (if list_ex (\<lambda>d. d \<noteq> 0) (np_diff (map (\<lambda>x. int (length x)) X))
      then Inl ValueError else Inr ())"

text \<open>
  \<open>np.concatenate(data, axis=0)\<close> on a list of two-dimensional arrays, each a list of
  rows: an empty list of arrays and rows of different lengths are errors.
\<close>

fun same_columns :: "array2d \<Rightarrow> bool" where
  "same_columns [] = True"
| "same_columns (row # rows) = list_all (\<lambda>x. length x = length row) rows"

definition np_concatenate :: "array2d list \<Rightarrow> error + array2d" where
  "np_concatenate arrays =
     (if arrays = [] then Inl ValueError
      else if \<not> same_columns (concat arrays) then Inl ValueError
      else Inr (concat arrays))"

text \<open>What the generator yields: the data, with the indices when they are asked for.\<close>

datatype sample = WithIndices "nat list list" array2d | DataOnly array2d

text \<open>
  \<open>_generate_samples\<close>: the loop over \<open>range(self.n_bootstraps)\<close>. The abstract
  method \<open>_generate_samples_single_bootstrap\<close> is the parameter \<open>single\<close>. Iterating
  the Python generator to its end gives the samples yielded, the exception that ended
  the iteration if one did, and the instance as the iteration left it.
\<close>

fun generate_samples_loop ::
  "('s \<Rightarrow> array2d \<Rightarrow> array2d option \<Rightarrow> (error + (nat list list \<times> array2d list)) \<times> 's)
     \<Rightarrow> nat \<Rightarrow> 's \<Rightarrow> array2d \<Rightarrow> bool \<Rightarrow> array2d option
     \<Rightarrow> sample list \<times> error option \<times> 's" where
  "generate_samples_loop single 0 self X return_indices exog = ([], None, self)"
| "generate_samples_loop single (Suc n) self X return_indices exog =
     (case single self X exog of
        (Inl e, s) \<Rightarrow> ([], Some e, s)
      | (Inr (indices, data), s) \<Rightarrow>
          (case np_concatenate data of
             Inl e \<Rightarrow> ([], Some e, s)
           | Inr d \<Rightarrow>
               (let (ys, err, s') = generate_samples_loop single n s X return_indices exog
                in ((if return_indices then WithIndices indices d else DataOnly d) # ys,
                    err, s'))))"

definition generate_samples ::
  "('a base_bootstrap_scheme \<Rightarrow> array2d \<Rightarrow> array2d option
      \<Rightarrow> (error + (nat list list \<times> array2d list)) \<times> 'a base_bootstrap_scheme)
     \<Rightarrow> 'a base_bootstrap_scheme \<Rightarrow> array2d \<Rightarrow> bool \<Rightarrow> array2d option
     \<Rightarrow> sample list \<times> error option \<times> 'a base_bootstrap_scheme" where
  "generate_samples single self X return_indices exog =
     generate_samples_loop single (n_bootstraps self) self X return_indices exog"

text \<open>
  The instance as \<open>j\<close> calls of the single-bootstrap method leave it, one after the
  other.
\<close>

fun draw_state ::
  "('s \<Rightarrow> array2d \<Rightarrow> array2d option \<Rightarrow> (error + (nat list list \<times> array2d list)) \<times> 's)
     \<Rightarrow> 's \<Rightarrow> array2d \<Rightarrow> array2d option \<Rightarrow> nat \<Rightarrow> 's" where
  "draw_state single self X exog 0 = self"
| "draw_state single self X exog (Suc j) =
     draw_state single (snd (single self X exog)) X exog j"

text \<open>
  \<open>split\<close>. The virtual \<open>_check_input\<close> is the parameter \<open>check\<close>; the helper
  \<open>time_series_split\<close> (utils/odds\_and\_ends.py, not among the sources) is the
  parameter \<open>time_series_split\<close>, called with the test ratio 0.2. Only the first
  component of its result, the training part, is used.
\<close>

definition split ::
  "('a base_bootstrap_scheme \<Rightarrow> array2d \<Rightarrow> error + unit)
     \<Rightarrow> ('a base_bootstrap_scheme \<Rightarrow> array2d \<Rightarrow> array2d option
          \<Rightarrow> (error + (nat list list \<times> array2d list)) \<times> 'a base_bootstrap_scheme)
     \<Rightarrow> (array2d \<Rightarrow> real \<Rightarrow> array2d \<times> array2d)
     \<Rightarrow> 'a base_bootstrap_scheme \<Rightarrow> array2d \<Rightarrow> bool \<Rightarrow> array2d option
     \<Rightarrow> sample list \<times> error option \<times> 'a base_bootstrap_scheme" where
  "split check single time_series_split self X return_indices exog =
     (case check self X of
        Inl e \<Rightarrow> ([], Some e, self)
      | Inr u \<Rightarrow>
          (let X_train = fst (time_series_split X (2 / 10))
           in case exog of
                Some ex \<Rightarrow>
                  (case check self ex of
                     Inl e \<Rightarrow> ([], Some e, self)
                   | Inr u' \<Rightarrow>
                       generate_samples single self X_train return_indices
                         (Some (fst (time_series_split ex (2 / 10)))))
              | None \<Rightarrow> generate_samples single self X_train return_indices None))"

section \<open>bootstrap.py: BlockBootstrap\<close>

record block_bootstrap = base_bootstrap +
  block_length :: "nat option"
  block_length_distribution :: "string option"
  wrap_around_flag :: bool
  overlap_flag :: bool
  combine_generation_and_sampling_flag :: bool
  block_weights :: "weight_source option"
  tapered_weights :: "weight_source option"
  overlap_length :: "nat option"
  min_block_length :: "nat option"
  blocks :: "nat list list option"
  block_resampler :: "block_resampler option"

text \<open>The setter of \<open>block_length\<close>: \<open>None\<close>, or an integer that is at least 1.\<close>

definition set_block_length :: "pyval \<Rightarrow> error + nat option" where
  "set_block_length v =
     (case v of
        PyNone \<Rightarrow> Inr None
      | PyInt n \<Rightarrow> if n < 1 then Inl ValueError else Inr (Some (nat n))
      | PyOther \<Rightarrow> Inl ValueError)"

text \<open>\<open>BlockBootstrap._check_input\<close>: the base check, then the block length.\<close>

definition check_input :: "block_bootstrap \<Rightarrow> array2d \<Rightarrow> error + unit" where
  "check_input self X =
     (case base_check_input X of
        Inl e \<Rightarrow> Inl e
      | Inr u \<Rightarrow>
          (if block_length self \<noteq> None \<and> the (block_length self) > length X
           then Inl ValueError else Inr ()))"

text \<open>
  The average block length that \<open>_generate_blocks\<close> hands to the length sampler:
  \<open>self.block_length\<close>, or \<open>int(np.sqrt(X.shape[0]))\<close>. \<open>int\<close> truncates
  towards zero, and the double is not negative, so this is its floor.
\<close>

definition sampler_avg_block_length :: "block_bootstrap \<Rightarrow> array2d \<Rightarrow> nat" where
  "sampler_avg_block_length self X =
     (if block_length self \<noteq> None then the (block_length self)
      else nat \<lfloor>np_sqrt (length X)\<rfloor>)"

text \<open>The rounded square root, as the design document words the default.\<close>

definition round_sqrt :: "nat \<Rightarrow> nat" where
  "round_sqrt n = nat (round (sqrt (real n)))"

text \<open>
  \<open>_generate_blocks\<close>: builds the sampler and the block generator and generates the
  blocks. The instance comes back with its generator advanced by the draws.
\<close>

definition generate_blocks_of ::
  "block_bootstrap \<Rightarrow> array2d \<Rightarrow> (error + nat list list) \<times> block_bootstrap" where
  "generate_blocks_of self X =
     (case BlockLengthSampler (sampler_avg_block_length self X)
             (block_length_distribution self) of
        Inl e \<Rightarrow> (Inl e, self)
      | Inr block_length_sampler \<Rightarrow>
          (case BlockGenerator block_length_sampler (length X) (wrap_around_flag self)
                  (overlap_length self) (min_block_length self) of
             Inl e \<Rightarrow> (Inl e, self)
           | Inr block_generator \<Rightarrow>
               (let (bs, r) = generate_blocks block_generator (overlap_flag self) (rng self)
                in (Inr bs, self\<lparr>rng := r\<rparr>))))"

text \<open>
  \<open>_generate_samples_single_bootstrap\<close>. First the blocks and the resampler of this
  draw: made anew when the flag is set or no blocks are stored, the stored ones otherwise
  (the stored resampler is \<open>None\<close> only if something else set \<open>blocks\<close>; the call on
  it is then an \<open>AttributeError\<close>). Then the draw, and the store when the flag is not
  set.
\<close>

definition blocks_and_resampler ::
  "block_bootstrap \<Rightarrow> array2d
     \<Rightarrow> (error + (nat list list \<times> block_resampler option)) \<times> block_bootstrap" where
  "blocks_and_resampler self X =
     (if combine_generation_and_sampling_flag self \<or> blocks self = None
      then
        (case generate_blocks_of self X of
           (Inl e, s) \<Rightarrow> (Inl e, s)
         | (Inr bs, s) \<Rightarrow>
             (case BlockResampler X bs (block_weights s) (tapered_weights s) of
                Inl e \<Rightarrow> (Inl e, s)
              | Inr br \<Rightarrow> (Inr (bs, Some br), s)))
      else (Inr (the (blocks self), block_resampler self), self))"

definition generate_samples_single_bootstrap ::
  "block_bootstrap \<Rightarrow> array2d \<Rightarrow> array2d option
     \<Rightarrow> (error + (nat list list \<times> array2d list)) \<times> block_bootstrap" where
  "generate_samples_single_bootstrap self X exog =
     (case blocks_and_resampler self X of
        (Inl e, s) \<Rightarrow> (Inl e, s)
      | (Inr (bs, None), s) \<Rightarrow> (Inl AttributeError, s)
      | (Inr (bs, Some br), s) \<Rightarrow>
          (case resample_block_indices_and_data br (rng s) of
             Inl e \<Rightarrow> (Inl e, s)
           | Inr (block_indices, block_data, r) \<Rightarrow>
               (Inr (block_indices, block_data),
                if \<not> combine_generation_and_sampling_flag self
                then s\<lparr>rng := r, blocks := Some bs, block_resampler := Some br\<rparr>
                else s\<lparr>rng := r\<rparr>)))"

text \<open>
  \<open>BlockBootstrap.__init__\<close>: the setters run in the order of the source (the number
  of bootstraps, then the block length), and the stored blocks and resampler start as
  \<open>None\<close>. The generator argument is a generator already made from the seed.
\<close>

definition BlockBootstrap ::
  "pyval \<Rightarrow> pyval \<Rightarrow> string option \<Rightarrow> bool \<Rightarrow> bool \<Rightarrow> bool \<Rightarrow> generator
     \<Rightarrow> weight_source option \<Rightarrow> weight_source option \<Rightarrow> nat option \<Rightarrow> nat option
     \<Rightarrow> error + block_bootstrap" where
  "BlockBootstrap n_bs bl dname wrap overlap combine g bw tw ol ml =
     (case set_n_bootstraps n_bs of
        Inl e \<Rightarrow> Inl e
      | Inr n \<Rightarrow>
          (case set_block_length bl of
             Inl e \<Rightarrow> Inl e
           | Inr b \<Rightarrow>
               Inr \<lparr>n_bootstraps = n, rng = g, block_length = b,
                    block_length_distribution = dname, wrap_around_flag = wrap,
                    overlap_flag = overlap, combine_generation_and_sampling_flag = combine,
                    block_weights = bw, tapered_weights = tw, overlap_length = ol,
                    min_block_length = ml, blocks = None, block_resampler = None\<rparr>))"


text \<open>
  Generators and an instance to evaluate the functions on: every uniform variate of
  \<open>gen0\<close> is 0, every raw draw is the mean; \<open>gen1\<close> has drawn two other variates
  and goes on like \<open>gen0\<close>; the instance is the one the constructor builds from
  its default arguments, for the given number of bootstraps, block length and flag.
\<close>

definition gen0 :: generator where
  "gen0 = \<lparr>gen_uniforms = (\<lambda>i. 0), gen_variate = (\<lambda>d m u. real m), gen_pos = 0\<rparr>"


definition bootstrap0 :: "nat \<Rightarrow> nat option \<Rightarrow> bool \<Rightarrow> block_bootstrap" where
  "bootstrap0 n b combine =
     \<lparr>n_bootstraps = n, rng = gen0, block_length = b,
      block_length_distribution = None, wrap_around_flag = False,
      overlap_flag = False, combine_generation_and_sampling_flag = combine,
      block_weights = None, tapered_weights = None, overlap_length = None,
      min_block_length = None, blocks = None, block_resampler = None\<rparr>"

definition sampler3 :: block_length_sampler where
  "sampler3 = \<lparr>avg_block_length = 3, bls_distribution = DNone\<rparr>"

definition generator10 :: block_generator where
  "generator10 = \<lparr>bg_sampler = sampler3, bg_input_length = 10,
                   bg_wrap_around_flag = False, bg_overlap_length = 1,
                   bg_min_block_length = 1\<rparr>"

section \<open>Evaluation\<close>

text \<open>The equations that evaluate a draw on a concrete instance.\<close>

lemmas engine_defs =
  generate_samples_single_bootstrap_def blocks_and_resampler_def generate_blocks_of_def
  sampler_avg_block_length_def BlockLengthSampler_def distribution_of_name_def
  BlockGenerator_def generate_blocks_def blocks_loop.simps sample_length_def
  block_stop_def block_range_def Let_def upt_rec BlockResampler_def check_blocks_def
  prepare_block_weights_def taper_for_def resample_block_indices_and_data_def
  resample_loop.simps next_uniform_def gen0_def tapered_rows_def

text \<open>Generating blocks changes nothing of the instance but its generator.\<close>

lemma generate_blocks_of_frame:
  "generate_blocks_of self X = (res, s) \<Longrightarrow> \<exists>g. s = self\<lparr>rng := g\<rparr>"
  by (auto simp: generate_blocks_of_def Let_def split: sum.splits prod.splits
      intro: exI [of _ "rng self"])

section \<open>Weight validation\<close>

lemma two_dims_no_column_empty:
  assumes "wf_ndarray w" "ndim w = 2" "shape w ! 1 = 0"
  shows "elems w = []"
proof -
  obtain a b where ab: "shape w = [a, b]"
    using assms(2) unfolding ndim_def
    by (auto simp: length_Suc_conv numeral_2_eq_2)
  then have "b = 0" using assms(3) by simp
  then have "prod_list (shape w) = 0" using ab by simp
  then show ?thesis using assms(1) by (simp add: wf_ndarray_def)
qed

lemma negative_head_raises:
  "validate_weights (array1d (- 1 # rest)) = Inl ValueError"
  by (simp add: validate_weights_def array1d_def real_scalar_def np_less0_def)

text \<open>
  C4, as stated, fails: an array of three dimensions with one finite positive entry has
  none of the listed defects, and \<open>validate_weights\<close> raises on it (the last check
  also refuses more than two dimensions).
\<close>

theorem validate_weights_three_dims_counterexample:
  "wf_ndarray \<lparr>shape = [1, 1, 1], elems = [real_scalar 1]\<rparr>
   \<and> validate_weights \<lparr>shape = [1, 1, 1], elems = [real_scalar 1]\<rparr> = Inl ValueError
   \<and> \<not> listed_weight_defect \<lparr>shape = [1, 1, 1], elems = [real_scalar 1]\<rparr>"
  by (simp add: wf_ndarray_def validate_weights_def listed_weight_defect_def ndim_def
      real_scalar_def np_isfinite_def np_less0_def np_iscomplex_def np_eq0_def)

lemma negative_weights_no_resampler:
  "BlockResampler X bs (Some (\<lambda>n. array1d (- 1 # 2 # 3 # rest))) tw = Inl ValueError"
  by (simp add: BlockResampler_def check_blocks_def prepare_block_weights_def
      negative_head_raises)

lemma negative_weights_no_indices:
  assumes "block_weights self = Some (\<lambda>n. array1d (- 1 # 2 # 3 # rest))"
    and "combine_generation_and_sampling_flag self \<or> blocks self = None"
  shows "\<exists>e. generate_samples_single_bootstrap self X exog
               = (Inl e, snd (generate_blocks_of self X))"
proof -
  obtain res s where g: "generate_blocks_of self X = (res, s)"
    by (cases "generate_blocks_of self X") auto
  obtain r where s: "s = self\<lparr>rng := r\<rparr>"
    using generate_blocks_of_frame [OF g] by blast
  have w: "block_weights s = Some (\<lambda>n. array1d (- 1 # 2 # 3 # rest))"
    using assms(1) s by simp
  show ?thesis
  proof (cases res)
    case (Inl e)
    then show ?thesis
      using assms(2) g
      by (auto simp: generate_samples_single_bootstrap_def blocks_and_resampler_def)
  next
    case (Inr bs)
    then show ?thesis
      using assms(2) g w negative_weights_no_resampler [of X bs rest "tapered_weights s"]
      by (auto simp: generate_samples_single_bootstrap_def blocks_and_resampler_def)
  qed
qed

text \<open>
  C4, amended. For a weight array whose size is the product of its shape,
  \<open>validate_weights\<close> raises \<open>ValueError\<close> exactly when the array has a non-finite,
  a negative or a complex entry, is all zeros, is two-dimensional with more than one
  column, or has more than two dimensions; otherwise it returns normally. In particular
  the weights \<open>[-1, 2, 3, ...]\<close>, whatever follows the 3, raise: passed as
  block-selection weights they make the resampler's constructor raise, so that a draw
  which builds its resampler returns no indices and the iteration yields no sample.
\<close>

theorem validate_weights_raises_iff:
  "wf_ndarray w \<Longrightarrow>
     ((validate_weights w = Inl ValueError) = (listed_weight_defect w \<or> 2 < ndim w))
     \<and> ((validate_weights w = Inr ()) = (\<not> listed_weight_defect w \<and> ndim w \<le> 2))
     \<and> validate_weights (array1d (- 1 # 2 # 3 # rest)) = Inl ValueError
     \<and> BlockResampler X bs (Some (\<lambda>n. array1d (- 1 # 2 # 3 # rest))) tw = Inl ValueError
     \<and> (block_weights self = Some (\<lambda>n. array1d (- 1 # 2 # 3 # rest))
          \<and> (combine_generation_and_sampling_flag self \<or> blocks self = None)
        \<longrightarrow> (\<exists>e. fst (generate_samples_single_bootstrap self X' exog) = Inl e)
            \<and> fst (generate_samples generate_samples_single_bootstrap self X'
                 return_indices exog) = [])"
proof -
  assume wf: "wf_ndarray w"
  have cols: "shape w ! 1 \<noteq> 0" if "ndim w = 2" "\<not> list_all np_eq0 (elems w)"
  proof
    assume "shape w ! 1 = 0"
    then have "elems w = []" using two_dims_no_column_empty [OF wf that(1)] by simp
    then show False using that(2) by simp
  qed
  have total: "validate_weights w = Inl ValueError \<or> validate_weights w = Inr ()"
    by (simp add: validate_weights_def)
  have b: "(validate_weights w = Inr ()) = (\<not> listed_weight_defect w \<and> ndim w \<le> 2)"
  proof (cases "list_all np_eq0 (elems w)")
    case True
    then show ?thesis
      by (simp add: validate_weights_def listed_weight_defect_def)
  next
    case False
    have "(shape w ! 1 \<noteq> 1) = (1 < shape w ! 1)" if "ndim w = 2"
      using cols [OF that False] by auto
    moreover have "list_ex (\<lambda>s. \<not> np_isfinite s) (elems w) = (\<not> list_all np_isfinite (elems w))"
      by (simp add: list_ex_iff list_all_iff)
    ultimately show ?thesis
      using False
      by (auto simp: validate_weights_def listed_weight_defect_def)
  qed
  have a: "(validate_weights w = Inl ValueError) = (listed_weight_defect w \<or> 2 < ndim w)"
    using b total by auto
  have d: "(\<exists>e. fst (generate_samples_single_bootstrap self X' exog) = Inl e)
           \<and> fst (generate_samples generate_samples_single_bootstrap self X'
                return_indices exog) = []"
    if h: "block_weights self = Some (\<lambda>n. array1d (- 1 # 2 # 3 # rest))"
      "combine_generation_and_sampling_flag self \<or> blocks self = None"
  proof -
    obtain e where e: "generate_samples_single_bootstrap self X' exog
                         = (Inl e, snd (generate_blocks_of self X'))"
      using negative_weights_no_indices [OF h] by blast
    have "fst (generate_samples_loop generate_samples_single_bootstrap n self X'
              return_indices exog) = []" for n
      by (cases n) (simp_all add: e)
    then show ?thesis using e by (simp add: generate_samples_def)
  qed
  have c: "validate_weights (array1d (- 1 # 2 # 3 # rest)) = Inl ValueError"
    by (rule negative_head_raises)
  have r: "BlockResampler X bs (Some (\<lambda>n. array1d (- 1 # 2 # 3 # rest))) tw = Inl ValueError"
    by (rule negative_weights_no_resampler)
  show ?thesis
    using a b c r d by blast
qed

theorem validate_weights_raises_iff_witness:
  "wf_ndarray (array1d [1, 2])
   \<and> validate_weights (array1d [1, 2]) = Inr ()
   \<and> \<not> listed_weight_defect (array1d [1, 2])
   \<and> validate_weights (array1d [- 1, 2, 3]) = Inl ValueError
   \<and> BlockResampler [[1], [2], [3]] [[0, 1], [2]] (Some (\<lambda>n. array1d [- 1, 2, 3])) None
       = Inl ValueError
   \<and> block_weights ((bootstrap0 2 (Some 2) False)
        \<lparr>block_weights := Some (\<lambda>n. array1d [- 1, 2, 3])\<rparr>)
       = Some (\<lambda>n. array1d [- 1, 2, 3])
   \<and> blocks ((bootstrap0 2 (Some 2) False)
        \<lparr>block_weights := Some (\<lambda>n. array1d [- 1, 2, 3])\<rparr>) = None
   \<and> fst (generate_samples_single_bootstrap ((bootstrap0 2 (Some 2) False)
        \<lparr>block_weights := Some (\<lambda>n. array1d [- 1, 2, 3])\<rparr>) [[1], [2], [3]] None)
       = Inl ValueError
   \<and> fst (generate_samples generate_samples_single_bootstrap ((bootstrap0 2 (Some 2) False)
        \<lparr>block_weights := Some (\<lambda>n. array1d [- 1, 2, 3])\<rparr>) [[1], [2], [3]] True None)
       = []"
proof -
  let ?b = "(bootstrap0 2 (Some 2) False)\<lparr>block_weights := Some (\<lambda>n. array1d [- 1, 2, 3])\<rparr>"
  let ?X = "[[1], [2], [3::real]]"
  have wf: "wf_ndarray (array1d [1, 2])"
    by (simp add: wf_ndarray_def array1d_def)
  have ok: "validate_weights (array1d [1, 2]) = Inr ()"
    by (simp add: validate_weights_def array1d_def real_scalar_def np_isfinite_def
        np_less0_def np_iscomplex_def np_eq0_def ndim_def)
  have h: "block_weights ?b = Some (\<lambda>n. array1d [- 1, 2, 3])" "blocks ?b = None"
    by (simp_all add: bootstrap0_def)
  have ev: "fst (generate_samples_single_bootstrap ?b ?X None) = Inl ValueError"
    by (simp add: bootstrap0_def engine_defs validate_weights_def array1d_def
        real_scalar_def np_isfinite_def np_less0_def)
  note t = validate_weights_raises_iff [OF wf, of "[]" ?X "[[0, 1], [2]]" None ?b ?X None True]
  show ?thesis
    using t wf ok h ev by simp
qed

section \<open>Block validation\<close>

text \<open>
  C5. \<open>validate_block_indices\<close> only compares the indices with the input length from
  above: the block \<open>[-7]\<close> is accepted for an input of length 5, although no row has
  the index \<open>-7\<close>.
\<close>

theorem validate_block_indices_accepts_negative:
  "validate_block_indices (PyList [index_block [- 7]]) 5 = Inr ()"
  by (simp add: index_block_def)

section \<open>Block generation\<close>

lemma blocks_loop_concat:
  shows "\<not> bg_wrap_around_flag g \<Longrightarrow> concat acc = [0..<start] \<Longrightarrow> start \<le> bg_input_length g \<Longrightarrow> [] \<notin> set acc \<Longrightarrow>
    concat (fst (blocks_loop g False start acc r)) = [0..<bg_input_length g]
    \<and> [] \<notin> set (fst (blocks_loop g False start acc r))"
proof (induction g "False" start acc r rule: blocks_loop.induct)
  case (1 g start acc r)
  show ?case
  proof (cases "bg_input_length g \<le> start")
    case True
    then have "blocks_loop g False start acc r = (acc, r)"
      by (subst blocks_loop.simps) simp
    moreover have "start = bg_input_length g" using True 1(4) by simp
    ultimately show ?thesis using 1(3,5) by simp
  next
    case False
    obtain len r' where lr: "sample_length (bg_sampler g) (bg_min_block_length g) r = (len, r')"
      by (cases "sample_length (bg_sampler g) (bg_min_block_length g) r")
    define stop where "stop = block_stop g False start len"
    define block where "block = block_range g start stop"
    have len: "1 \<le> len" using sample_length_pos [OF lr [symmetric]] .
    have ss: "start < stop" using len by (simp add: stop_def block_stop_def Let_def)
    show ?thesis
    proof (cases "bg_input_length g \<le> stop")
      case True
      have b: "block = [start..<bg_input_length g]"
        using True 1(2) by (simp add: block_def block_range_def)
      have "blocks_loop g False start acc r = (acc @ [block], r')"
        using False True lr
        by (subst blocks_loop.simps) (simp add: stop_def block_def Let_def)
      moreover have "[0..<start] @ [start..<bg_input_length g] = [0..<bg_input_length g]"
        using False by (metis le_add_diff_inverse nat_le_linear upt_add_eq_append zero_le)
      moreover have "0 < length block" using b False by simp
      then have "[] \<notin> set (acc @ [block])" using 1(5) by auto
      ultimately show ?thesis using 1(3) b by simp
    next
      case nstop: False
      have b: "block = [start..<stop]"
        using nstop 1(2) by (simp add: block_def block_range_def)
      have eq: "blocks_loop g False start acc r = blocks_loop g False stop (acc @ [block]) r'"
        using False nstop lr
        by (subst blocks_loop.simps) (simp add: stop_def block_def Let_def)
      have "[0..<start] @ [start..<stop] = [0..<stop]"
        using ss by (metis le_add_diff_inverse less_imp_le_nat upt_add_eq_append zero_le)
      then have c: "concat (acc @ [block]) = [0..<stop]"
        using 1(3) b by simp
      have "0 < length block" using b ss by simp
      then have ne: "[] \<notin> set (acc @ [block])" using 1(5) by auto
      have "concat (fst (blocks_loop g False stop (acc @ [block]) r')) = [0..<bg_input_length g]
        \<and> [] \<notin> set (fst (blocks_loop g False stop (acc @ [block]) r'))"
        using 1(1) [OF False refl lr [symmetric] stop_def block_def nstop 1(2)] c ne nstop
        by simp
      then show ?thesis using eq by simp
    qed
  qed
qed

lemma BlockGenerator_fields:
  "BlockGenerator s n w ol ml = Inr g \<Longrightarrow>
     bg_input_length g = n \<and> bg_wrap_around_flag g = w \<and> bg_sampler g = s"
  by (auto simp: BlockGenerator_def Let_def split: if_splits)

lemma disjoint_blocks_of_concat:
  assumes "distinct (concat bs)" "[] \<notin> set bs" "i < length bs" "j < length bs" "i \<noteq> j"
  shows "set (bs ! i) \<inter> set (bs ! j) = {}"
proof -
  have "removeAll [] bs = bs" using assms(2) by simp
  then have d: "distinct bs" using assms(1) by (simp add: distinct_concat_iff)
  have "bs ! i \<noteq> bs ! j"
    using d assms(3,4,5) by (simp add: nth_eq_iff_index_eq)
  moreover have "bs ! i \<in> set bs" "bs ! j \<in> set bs" using assms(3,4) by simp_all
  ultimately show ?thesis using assms(1) by (simp add: distinct_concat_iff)
qed

text \<open>
  C1. For an input length \<open>n \<ge> 1\<close>, an average block length of at most \<open>n\<close>, no
  overlap and no wrap-around, the blocks of a generator that the constructor accepted
  are pairwise disjoint and their union is \<open>{0, ..., n - 1}\<close>; in fact they are
  consecutive runs: concatenated, they are the list \<open>0, ..., n - 1\<close>.
\<close>

theorem generate_blocks_partition:
  "1 \<le> n \<Longrightarrow> avg_block_length s \<le> n \<Longrightarrow> BlockGenerator s n False ol ml = Inr g \<Longrightarrow>
   bs = fst (generate_blocks g False r) \<Longrightarrow>
     (\<forall>i<length bs. \<forall>j<length bs. i \<noteq> j \<longrightarrow> set (bs ! i) \<inter> set (bs ! j) = {})
     \<and> \<Union> (set ` set bs) = {0..<n}
     \<and> concat bs = [0..<n]"
proof -
  assume g: "BlockGenerator s n False ol ml = Inr g"
    and bs: "bs = fst (generate_blocks g False r)"
  have f: "bg_input_length g = n" "\<not> bg_wrap_around_flag g"
    using BlockGenerator_fields [OF g] by simp_all
  have c: "concat bs = [0..<n] \<and> [] \<notin> set bs"
    using blocks_loop_concat [OF f(2), of "[]" 0 r] f(1) bs
    by (simp add: generate_blocks_def)
  then have d: "distinct (concat bs)" by simp
  have u: "\<Union> (set ` set bs) = {0..<n}"
    using c by (metis atLeastLessThan_upt set_concat)
  show ?thesis
    using c u disjoint_blocks_of_concat [OF d] by blast
qed

theorem generate_blocks_partition_witness:
  "(1::nat) \<le> 10 \<and> avg_block_length sampler3 \<le> 10
   \<and> BlockGenerator sampler3 10 False None None = Inr generator10
   \<and> fst (generate_blocks generator10 False gen0) = [[0, 1, 2], [3, 4, 5], [6, 7, 8], [9]]
   \<and> set (fst (generate_blocks generator10 False gen0) ! 0)
        \<inter> set (fst (generate_blocks generator10 False gen0) ! 3) = {}
   \<and> \<Union> (set ` set (fst (generate_blocks generator10 False gen0))) = {0..<10}
   \<and> concat (fst (generate_blocks generator10 False gen0)) = [0..<10]"
proof -
  have a: "(1::nat) \<le> 10" "avg_block_length sampler3 \<le> 10"
    by (simp_all add: sampler3_def)
  have g: "BlockGenerator sampler3 10 False None None = Inr generator10"
    by (simp add: BlockGenerator_def generator10_def sampler3_def)
  have v: "fst (generate_blocks generator10 False gen0)
             = [[0, 1, 2], [3, 4, 5], [6, 7, 8], [9]]"
    by (simp add: generate_blocks_def blocks_loop.simps generator10_def sampler3_def
        sample_length_def block_stop_def block_range_def Let_def upt_rec)
  have p: "(\<forall>i<length (fst (generate_blocks generator10 False gen0)).
             \<forall>j<length (fst (generate_blocks generator10 False gen0)). i \<noteq> j \<longrightarrow>
               set (fst (generate_blocks generator10 False gen0) ! i)
                 \<inter> set (fst (generate_blocks generator10 False gen0) ! j) = {})
           \<and> \<Union> (set ` set (fst (generate_blocks generator10 False gen0))) = {0..<10}
           \<and> concat (fst (generate_blocks generator10 False gen0)) = [0..<10]"
    using generate_blocks_partition [OF a g refl, of gen0] .
  have l: "0 < length (fst (generate_blocks generator10 False gen0))"
    "3 < length (fst (generate_blocks generator10 False gen0))"
    using v by simp_all
  have "set (fst (generate_blocks generator10 False gen0) ! 0)
        \<inter> set (fst (generate_blocks generator10 False gen0) ! 3) = {}"
    using p l by (metis zero_neq_numeral)
  then show ?thesis using a g v p by blast
qed

section \<open>The default block length\<close>

subsection \<open>The floor of the double-precision square root\<close>

lemma round_half_even_int: "round_half_even (of_int m) = m"
  by (simp add: round_half_even_def)

lemma round_half_even_ge: "of_int m \<le> y \<Longrightarrow> m \<le> round_half_even y"
proof -
  assume "of_int m \<le> y"
  then have "m \<le> \<lfloor>y\<rfloor>" by (simp add: le_floor_iff)
  then show ?thesis by (auto simp: round_half_even_def Let_def)
qed

lemma round_half_even_less: "y < of_int m - 1 / 2 \<Longrightarrow> round_half_even y < m"
proof -
  assume a: "y < of_int m - 1 / 2"
  then have "y < of_int m" by simp
  then have f: "\<lfloor>y\<rfloor> < m" by (simp add: floor_less_iff)
  show ?thesis
  proof (cases "\<lfloor>y\<rfloor> = m - 1")
    case True
    then have "y - of_int \<lfloor>y\<rfloor> < 1 / 2" using a by simp
    then show ?thesis using f by (simp add: round_half_even_def Let_def)
  next
    case False
    then have "\<lfloor>y\<rfloor> + 1 < m" using f by simp
    then show ?thesis by (auto simp: round_half_even_def Let_def)
  qed
qed

lemma round_half_even_up: "of_int m - 1 / 2 < y \<Longrightarrow> y \<le> of_int m \<Longrightarrow> round_half_even y = m"
proof -
  assume a: "of_int m - 1 / 2 < y" and b: "y \<le> of_int m"
  show ?thesis
  proof (cases "y = of_int m")
    case True
    then show ?thesis by (simp add: round_half_even_int)
  next
    case False
    then have "y < of_int m" using b by simp
    moreover have "of_int (m - 1) \<le> y" using a by simp
    ultimately have f: "\<lfloor>y\<rfloor> = m - 1" by (simp add: floor_unique)
    then have "1 / 2 < y - of_int \<lfloor>y\<rfloor>" using a by simp
    then show ?thesis using f by (simp add: round_half_even_def Let_def)
  qed
qed

lemma float64_ulp_binade:
  assumes "2 ^ b \<le> x" "x < 2 ^ Suc b" "b \<le> 52"
  shows "float64_ulp x = 1 / 2 ^ (52 - b)"
proof -
  have x: "0 < x" using assms(1) by (smt (verit) zero_less_power)
  have p1: "2 powr real_of_int (int b) = 2 ^ b"
    by (simp add: powr_realpow)
  have p2: "2 powr real_of_int (int b + 1) = 2 ^ Suc b"
    by (simp add: powr_add powr_realpow)
  have "\<lfloor>log 2 x\<rfloor> = int b"
    using floor_log_eq_powr_iff [of x 2 "int b"] x assms(1,2) unfolding p1 p2 by simp
  then have "float64_ulp x = 2 powr (- real (52 - b))"
    using assms(3) by (simp add: float64_ulp_def)
  also have "\<dots> = 1 / 2 ^ (52 - b)"
    by (simp add: powr_minus powr_realpow inverse_eq_divide)
  finally show ?thesis .
qed

lemma binade_exists:
  fixes x :: real
  assumes "1 \<le> x" "x < 2 ^ Suc c"
  shows "\<exists>b\<le>c. 2 ^ b \<le> x \<and> x < 2 ^ Suc b"
  using assms
proof (induction c)
  case 0
  then show ?case by (intro exI [of _ 0]) simp
next
  case (Suc c)
  show ?case
  proof (cases "x < 2 ^ Suc c")
    case True
    then obtain b where "b \<le> c" "2 ^ b \<le> x \<and> x < 2 ^ Suc b"
      using Suc.IH [OF Suc.prems(1)] by blast
    then show ?thesis by (intro exI [of _ b]) simp
  next
    case False
    then show ?thesis using Suc.prems(2) by (intro exI [of _ "Suc c"]) simp
  qed
qed

lemma float64_pos:
  "0 < x \<Longrightarrow> float64 x = of_int (round_half_even (x / float64_ulp x)) * float64_ulp x"
  by (simp add: float64_def)

lemma float64_nat: 
  assumes "n < 2 ^ 53"
  shows "float64 (real n) = real n"
proof (cases "n = 0")
  case True
  then show ?thesis by (simp add: float64_def)
next
  case False
  then have n1: "1 \<le> real n" by simp
  have "real n < 2 ^ Suc 52" using assms by (simp add: of_nat_less_numeral_power_cancel_iff)
  then obtain b where b: "b \<le> 52" "2 ^ b \<le> real n" "real n < 2 ^ Suc b"
    using binade_exists [OF n1] by blast
  have u: "float64_ulp (real n) = 1 / 2 ^ (52 - b)"
    using float64_ulp_binade [OF b(2,3,1)] .
  have "real n / float64_ulp (real n) = of_int (int (n * 2 ^ (52 - b)))"
    unfolding u by simp
  then have "round_half_even (real n / float64_ulp (real n)) = int (n * 2 ^ (52 - b))"
    using round_half_even_int by metis
  then show ?thesis using n1 u by (simp add: float64_pos)
qed

lemma float64_floor:
  assumes "1 \<le> k" "real k \<le> s" "s < 2 ^ 26"
    and gap: "1 / 2 ^ 28 < real k + 1 - s"
  shows "\<lfloor>float64 s\<rfloor> = int k"
proof -
  have s1: "1 \<le> s" using assms(1,2) by simp
  obtain b where b: "b \<le> 25" "2 ^ b \<le> s" "s < 2 ^ Suc b"
    using binade_exists [OF s1, of 25] assms(3) by auto
  define j where "j = 52 - b"
  have j: "27 \<le> j" using b(1) by (simp add: j_def)
  have u: "float64_ulp s = 1 / 2 ^ j"
    unfolding j_def using float64_ulp_binade [OF b(2,3)] b(1) by simp
  define y where "y = s * 2 ^ j"
  have fl: "float64 s = of_int (round_half_even y) / 2 ^ j"
    using s1 u by (simp add: float64_pos y_def)
  have lo: "int (k * 2 ^ j) \<le> round_half_even y"
  proof (rule round_half_even_ge)
    show "real_of_int (int (k * 2 ^ j)) \<le> y" using assms(2) by (simp add: y_def)
  qed
  have "(2::real) ^ 27 \<le> 2 ^ j" using j by (intro power_increasing) simp_all
  then have "(1::real) / 2 ^ j \<le> 1 / 2 ^ 27"
    by (intro frac_le) simp_all
  define h where "h = (1::real) / 2 ^ j / 2"
  define g where "g = (1::real) / 2 ^ 28"
  have hg: "h \<le> g" unfolding h_def g_def using \<open>(1::real) / 2 ^ j \<le> 1 / 2 ^ 27\<close> by simp
  have "g < real k + 1 - s" using gap by (simp add: g_def)
  then have "s < real k + 1 - h" using hg by linarith
  then have "s * 2 ^ j < (real k + 1 - h) * 2 ^ j"
    by (simp add: mult_strict_right_mono)
  also have "\<dots> = real_of_int (int ((k + 1) * 2 ^ j)) - 1 / 2"
    by (simp add: h_def algebra_simps)
  finally have "round_half_even y < int ((k + 1) * 2 ^ j)"
    unfolding y_def by (rule round_half_even_less)
  then have hi: "real_of_int (round_half_even y) < real ((k + 1) * 2 ^ j)"
    by (metis of_int_less_iff of_int_of_nat_eq)
  have lo': "real (k * 2 ^ j) \<le> real_of_int (round_half_even y)"
    using lo by (metis of_int_le_iff of_int_of_nat_eq)
  have "real k \<le> float64 s"
    unfolding fl using lo' by (simp add: pos_le_divide_eq)
  moreover have "float64 s < real k + 1"
    unfolding fl using hi by (simp add: pos_divide_less_eq algebra_simps)
  ultimately show ?thesis by (simp add: floor_unique)
qed

lemma sqrt_gap:
  assumes "k * k \<le> n" "n < (k + 1) * (k + 1)" "k + 1 \<le> 2 ^ 26"
  shows "1 / 2 ^ 28 < real k + 1 - sqrt (real n)"
proof -
  define s where "s = sqrt (real n)"
  have s0: "0 \<le> s" by (simp add: s_def)
  have ss: "s * s = real n" by (simp add: s_def)
  have "Suc n \<le> (k + 1) * (k + 1)" using assms(2) by simp
  then have "real (Suc n) \<le> real ((k + 1) * (k + 1))" by (simp only: of_nat_le_iff)
  then have "real n + 1 \<le> real ((k + 1) * (k + 1))" by simp
  then have d: "1 \<le> (real k + 1) * (real k + 1) - s * s"
    unfolding ss by (simp add: algebra_simps)
  have sk: "s < real k + 1"
  proof (rule ccontr)
    assume "\<not> s < real k + 1"
    then have "real k + 1 \<le> s" by simp
    then have "(real k + 1) * (real k + 1) \<le> s * s" by (intro mult_mono) simp_all
    then show False using d by simp
  qed
  have "real (k + 1) \<le> real (2 ^ 26)" using assms(3) by (simp only: of_nat_le_iff)
  then have k26: "real k + 1 \<le> 2 ^ 26" by simp
  have sum: "real k + 1 + s < 2 ^ 27" using sk k26 by simp
  have pos: "0 < real k + 1 - s" using sk by simp
  have "1 \<le> (real k + 1 - s) * (real k + 1 + s)" using d by (simp add: algebra_simps)
  also have "\<dots> < (real k + 1 - s) * 2 ^ 27"
    using sum pos by (rule mult_strict_left_mono)
  finally have "1 / 2 ^ 27 < real k + 1 - s" by (simp add: pos_divide_less_eq)
  then show ?thesis unfolding s_def by simp
qed

lemma np_sqrt_floor:
  assumes "k * k \<le> n" "n < (k + 1) * (k + 1)" "n < 2 ^ 52"
  shows "\<lfloor>np_sqrt n\<rfloor> = int k"
proof (cases "k = 0")
  case True
  then have "n = 0" using assms(2) by simp
  then show ?thesis using True by (simp add: np_sqrt_def float64_def)
next
  case False
  then have k1: "1 \<le> k" by simp
  have "k * k < 2 ^ 26 * 2 ^ 26" using assms(1,3) by simp
  then have "k < 2 ^ 26"
    by (metis mult_le_mono not_le)
  then have k26: "k + 1 \<le> 2 ^ 26" by simp
  have f: "float64 (real n) = real n"
    using assms(3) by (intro float64_nat) simp
  have "real (k * k) \<le> real n" using assms(1) by (simp only: of_nat_le_iff)
  then have "sqrt (real (k * k)) \<le> sqrt (real n)" by (simp only: real_sqrt_le_iff)
  then have lo: "real k \<le> sqrt (real n)" by simp
  have "real n < 2 ^ 52" using assms(3) by (simp add: of_nat_less_numeral_power_cancel_iff)
  then have "sqrt (real n) < sqrt (2 ^ 52)" by (simp only: real_sqrt_less_iff)
  moreover have "sqrt (2 ^ 52) = (2::real) ^ 26"
    by (rule real_sqrt_unique) simp_all
  ultimately have hi: "sqrt (real n) < 2 ^ 26" by simp
  show ?thesis
    unfolding np_sqrt_def f
    using float64_floor [OF k1 lo hi sqrt_gap [OF assms(1,2) k26]] .
qed

lemma np_sqrt_rounds_up: "\<lfloor>np_sqrt (2 ^ 52 + 2 ^ 27)\<rfloor> = 2 ^ 26 + 1"
proof -
  define n :: nat where "n = 2 ^ 52 + 2 ^ 27"
  define s where "s = sqrt (real n)"
  define K :: real where "K = 2 ^ 26 + 1"
  have f: "float64 (real n) = real n"
    by (intro float64_nat) (simp add: n_def)
  have s0: "0 \<le> s" by (simp add: s_def)
  have ss: "s * s = real n" by (simp add: s_def)
  have KK: "K * K = real n + 1" by (simp add: K_def n_def)
  have lo: "2 ^ 26 < s"
  proof -
    have "sqrt ((2::real) ^ 52) < sqrt (real n)"
      by (simp only: real_sqrt_less_iff) (simp add: n_def)
    moreover have "sqrt (2 ^ 52) = (2::real) ^ 26"
      by (rule real_sqrt_unique) simp_all
    ultimately show ?thesis by (simp add: s_def)
  qed
  have sK: "s < K"
  proof (rule ccontr)
    assume "\<not> s < K"
    then have "K \<le> s" by simp
    then have "K * K \<le> s * s" by (intro mult_mono) (simp_all add: K_def)
    then show False using ss KK by simp
  qed
  have pos: "0 < K - s" using sK by simp
  have "(K - s) * 2 ^ 27 < (K - s) * (K + s)"
    using pos lo by (intro mult_strict_left_mono) (simp_all add: K_def)
  also have "\<dots> = 1" using ss KK by (simp add: algebra_simps)
  finally have gap: "K - s < 1 / 2 ^ 27" by (simp add: pos_less_divide_eq)
  have b: "2 ^ 26 \<le> s" "s < 2 ^ Suc 26" using lo sK by (simp_all add: K_def)
  have u: "float64_ulp s = 1 / 2 ^ 26"
    using float64_ulp_binade [OF b] by simp
  define y where "y = s * 2 ^ 26"
  define M :: int where "M = (2 ^ 26 + 1) * 2 ^ 26"
  have M: "real_of_int M = K * 2 ^ 26" by (simp add: M_def K_def)
  have "K * 2 ^ 26 - y = (K - s) * 2 ^ 26" by (simp add: y_def algebra_simps)
  also have "\<dots> < 1 / 2 ^ 27 * 2 ^ 26"
    using gap by (intro mult_strict_right_mono) simp_all
  finally have y1: "real_of_int M - 1 / 2 < y" unfolding M by simp
  have y2: "y \<le> real_of_int M" unfolding M y_def using sK by simp
  have r: "round_half_even y = M" using y1 y2 by (rule round_half_even_up)
  have spos: "0 < s" using lo by simp
  have "float64 s = real_of_int (round_half_even (s / (1 / 2 ^ 26))) * (1 / 2 ^ 26)"
    unfolding float64_pos [OF spos] u ..
  also have "s / (1 / 2 ^ 26) = y" by (simp add: y_def)
  finally have "float64 s = real_of_int M / 2 ^ 26"
    unfolding r by simp
  then have "float64 s = K" unfolding M by simp
  then have "\<lfloor>np_sqrt n\<rfloor> = 2 ^ 26 + 1"
    unfolding np_sqrt_def f s_def [symmetric] by (simp add: K_def)
  then show ?thesis by (simp add: n_def)
qed

lemma floor_sqrt_square:
  fixes n :: nat
  defines "k \<equiv> nat \<lfloor>sqrt (real n)\<rfloor>"
  shows "k * k \<le> n \<and> n < (k + 1) * (k + 1)"
proof -
  have nn: "0 \<le> sqrt (real n)" by simp
  then have f0: "0 \<le> \<lfloor>sqrt (real n)\<rfloor>" by simp
  have rk: "real k = of_int \<lfloor>sqrt (real n)\<rfloor>" using f0 by (simp add: k_def)
  have le: "real k \<le> sqrt (real n)" using rk by simp
  have lt: "sqrt (real n) < real k + 1" using rk by linarith
  have "real k * real k \<le> sqrt (real n) * sqrt (real n)"
    using le by (intro mult_mono) simp_all
  then have a: "real (k * k) \<le> real n" by simp
  have "sqrt (real n) * sqrt (real n) < (real k + 1) * (real k + 1)"
    using lt nn by (intro mult_strict_mono) simp_all
  then have b: "real n < real ((k + 1) * (k + 1))" by (simp add: algebra_simps)
  show ?thesis using a b of_nat_le_iff of_nat_less_iff by blast
qed

lemma sqrt3_bounds: "3 / 2 \<le> sqrt 3" "sqrt 3 < 2"
proof -
  have "(3 / 2 :: real)\<^sup>2 \<le> 3" by (simp add: power2_eq_square)
  then show "3 / 2 \<le> sqrt 3" by (rule real_le_rsqrt)
  show "sqrt 3 < 2" by (rule real_less_lsqrt) simp_all
qed

lemma round_sqrt3: "round_sqrt 3 = 2"
proof -
  have "round (sqrt 3) = 2"
    using sqrt3_bounds by (simp add: round_def floor_eq_iff)
  then show ?thesis by (simp add: round_sqrt_def)
qed

subsection \<open>What block generation uses\<close>

lemma unset_avg_block_length:
  assumes "block_length self = None" "k * k \<le> length X" "length X < (k + 1) * (k + 1)"
    and "length X < 2 ^ 52"
  shows "sampler_avg_block_length self X = k"
  using np_sqrt_floor [OF assms(2,3,4)] assms(1) by (simp add: sampler_avg_block_length_def)

lemma generate_blocks_of_avg:
  assumes "sampler_avg_block_length self X = k"
  shows "generate_blocks_of self X
           = (case generate_blocks_of (self\<lparr>block_length := Some k\<rparr>) X of
                (res, s) \<Rightarrow> (res, s\<lparr>block_length := block_length self\<rparr>))"
proof -
  have a: "sampler_avg_block_length (self\<lparr>block_length := Some k\<rparr>) X = k"
    by (simp add: sampler_avg_block_length_def)
  show ?thesis
    unfolding generate_blocks_of_def a assms
    by (simp split: sum.splits prod.splits)
qed

lemma example_blocks_length_one:
  "generate_blocks_of (bootstrap0 1 (Some 1) False) [[1], [2], [3]]
     = (Inr [[0], [1], [2]], bootstrap0 1 (Some 1) False)"
  by (simp add: bootstrap0_def engine_defs)

lemma example_blocks_length_two:
  "generate_blocks_of (bootstrap0 1 (Some 2) False) [[1], [2], [3]]
     = (Inr [[0, 1], [2]], bootstrap0 1 (Some 2) False)"
  by (simp add: bootstrap0_def engine_defs)

text \<open>
  C3, as stated, fails: with no block length set and three rows, the length sampler
  gets the average block length 1 and the blocks generated are the three single rows;
  the rounded square root of 3 is 2, and blocks of that average length are other blocks.
\<close>

theorem default_block_length_not_rounded_counterexample:
  "block_length (bootstrap0 1 None False) = None
   \<and> sampler_avg_block_length (bootstrap0 1 None False) [[1], [2], [3]] = 1
   \<and> round_sqrt (length [[1], [2], [3::real]]) = 2
   \<and> fst (generate_blocks_of (bootstrap0 1 None False) [[1], [2], [3]])
       = Inr [[0], [1], [2]]
   \<and> fst (generate_blocks_of (bootstrap0 1 (Some (round_sqrt 3)) False) [[1], [2], [3]])
       = Inr [[0, 1], [2]]"
proof -
  let ?b = "bootstrap0 1 None False"
  let ?X = "[[1], [2], [3::real]]"
  have n: "block_length ?b = None" by (simp add: bootstrap0_def)
  have a: "sampler_avg_block_length ?b ?X = 1"
    by (rule unset_avg_block_length [OF n]) simp_all
  have u: "?b\<lparr>block_length := Some 1\<rparr> = bootstrap0 1 (Some 1) False"
    by (simp add: bootstrap0_def)
  have g: "fst (generate_blocks_of ?b ?X) = Inr [[0], [1], [2]]"
    unfolding generate_blocks_of_avg [OF a] u example_blocks_length_one by simp
  have "length ?X = 3" by simp
  then have r: "round_sqrt (length ?X) = 2" by (simp only: round_sqrt3)
  have h: "fst (generate_blocks_of (bootstrap0 1 (Some (round_sqrt 3)) False) ?X)
             = Inr [[0, 1], [2]]"
    unfolding round_sqrt3 example_blocks_length_two by simp
  show ?thesis using n a r g h by blast
qed

text \<open>
  The bound on the number of rows in the amended statement is not idle: the double
  nearest to the square root of \<open>2 ^ 52 + 2 ^ 27\<close> is the integer \<open>2 ^ 26 + 1\<close>, whose
  square is above that number of rows.
\<close>

lemma default_block_length_beyond_double_precision:
  assumes "block_length self = None" "length X = 2 ^ 52 + 2 ^ 27"
  shows "sampler_avg_block_length self X = 2 ^ 26 + 1"
    and "length X < (2 ^ 26 + 1) * (2 ^ 26 + 1)"
proof -
  have "\<lfloor>np_sqrt (length X)\<rfloor> = 2 ^ 26 + 1"
    unfolding assms(2) by (rule np_sqrt_rounds_up)
  then show "sampler_avg_block_length self X = 2 ^ 26 + 1"
    using assms(1) by (simp add: sampler_avg_block_length_def nat_add_distrib nat_power_eq)
  show "length X < (2 ^ 26 + 1) * (2 ^ 26 + 1)" unfolding assms(2) by simp
qed

text \<open>
  C3, amended. Whenever the block length is unset, block generation uses
  \<open>int(np.sqrt(N))\<close> as the average block length, the double-precision square root of
  the number of rows \<open>N\<close> truncated to an integer: for \<open>N\<close> below \<open>2 ^ 52\<close> this is
  the number \<open>k\<close> with \<open>k * k \<le> N < (k + 1) * (k + 1)\<close>, and \<open>_generate_blocks\<close>
  generates exactly the blocks, and consumes exactly the draws, of an instance whose
  block length is set to \<open>k\<close>.
\<close>

theorem default_block_length_floor_sqrt:
  assumes "block_length self = None" and "length X < 2 ^ 52"
  shows "\<exists>k. k * k \<le> length X \<and> length X < (k + 1) * (k + 1)
           \<and> sampler_avg_block_length self X = k
           \<and> generate_blocks_of self X
               = (case generate_blocks_of (self\<lparr>block_length := Some k\<rparr>) X of
                    (res, s) \<Rightarrow> (res, s\<lparr>block_length := None\<rparr>))"
proof -
  define k where "k = nat \<lfloor>sqrt (real (length X))\<rfloor>"
  have b: "k * k \<le> length X \<and> length X < (k + 1) * (k + 1)"
    unfolding k_def by (rule floor_sqrt_square)
  have a: "sampler_avg_block_length self X = k"
    using unset_avg_block_length [OF assms(1) _ _ assms(2)] b by blast
  have "generate_blocks_of self X
          = (case generate_blocks_of (self\<lparr>block_length := Some k\<rparr>) X of
               (res, s) \<Rightarrow> (res, s\<lparr>block_length := None\<rparr>))"
    using generate_blocks_of_avg [OF a] assms(1) by simp
  then show ?thesis using a b by blast
qed

theorem default_block_length_floor_sqrt_witness:
  "block_length (bootstrap0 1 None False) = None
   \<and> length [[1], [2], [3::real]] < 2 ^ 52
   \<and> sampler_avg_block_length (bootstrap0 1 None False) [[1], [2], [3]] = 1
   \<and> generate_blocks_of (bootstrap0 1 None False) [[1], [2], [3]]
       = (Inr [[0], [1], [2]], bootstrap0 1 None False)"
proof -
  let ?b = "bootstrap0 1 None False"
  let ?X = "[[1], [2], [3::real]]"
  have n: "block_length ?b = None" by (simp add: bootstrap0_def)
  have l: "length ?X < 2 ^ 52" by simp
  obtain k where k: "k * k \<le> length ?X" "length ?X < (k + 1) * (k + 1)"
    "sampler_avg_block_length ?b ?X = k"
    "generate_blocks_of ?b ?X
       = (case generate_blocks_of (?b\<lparr>block_length := Some k\<rparr>) ?X of
            (res, s) \<Rightarrow> (res, s\<lparr>block_length := None\<rparr>))"
    using default_block_length_floor_sqrt [OF n l] by blast
  have "k \<noteq> 0"
  proof
    assume "k = 0"
    then show False using k(2) by simp
  qed
  moreover have "k < 2"
  proof (rule ccontr)
    assume "\<not> k < 2"
    then have "2 * 2 \<le> k * k" by (intro mult_le_mono) simp_all
    then show False using k(1) by simp
  qed
  ultimately have k1: "k = 1" by simp
  have u: "?b\<lparr>block_length := Some 1\<rparr> = bootstrap0 1 (Some 1) False"
    "(bootstrap0 1 (Some 1) False)\<lparr>block_length := None\<rparr> = ?b"
    by (simp_all add: bootstrap0_def)
  have "generate_blocks_of ?b ?X = (Inr [[0], [1], [2]], ?b)"
    using k(4) unfolding k1 u(1) example_blocks_length_one by (simp only: prod.case u(2))
  then show ?thesis using n k(3) k1 by simp
qed

section \<open>The input check\<close>

text \<open>
  C7. If the configured block length exceeds the number of rows of the input array,
  \<open>_check_input\<close> raises (Python's \<open>ValueError\<close>), and \<open>split\<close>, which checks
  first, yields no sample and leaves the instance as it was: its generator has consumed
  no draw.
\<close>

theorem block_length_above_rows_raises:
  "block_length self = Some b \<Longrightarrow> length X < b \<Longrightarrow>
     check_input self X = Inl ValueError
     \<and> split check_input generate_samples_single_bootstrap time_series_split self X
          return_indices exog = ([], Some ValueError, self)"
  by (simp add: check_input_def split_def base_check_input_def)

theorem block_length_above_rows_raises_witness:
  "block_length (bootstrap0 2 (Some 5) False) = Some 5
   \<and> length [[1], [2], [3::real]] < 5
   \<and> check_input (bootstrap0 2 (Some 5) False) [[1], [2], [3]] = Inl ValueError
   \<and> split check_input generate_samples_single_bootstrap (\<lambda>X ratio. (X, []))
        (bootstrap0 2 (Some 5) False) [[1], [2], [3]] False None
      = ([], Some ValueError, bootstrap0 2 (Some 5) False)
   \<and> gen_pos (rng (snd (snd (split check_input generate_samples_single_bootstrap
        (\<lambda>X ratio. (X, [])) (bootstrap0 2 (Some 5) False) [[1], [2], [3]] False None)))) = 0"
proof -
  have b: "block_length (bootstrap0 2 (Some 5) False) = Some 5"
    by (simp add: bootstrap0_def)
  have l: "length [[1], [2], [3::real]] < 5" by simp
  have p: "gen_pos (rng (bootstrap0 2 (Some 5) False)) = 0"
    by (simp add: bootstrap0_def gen0_def)
  show ?thesis
    using block_length_above_rows_raises [OF b l, of "\<lambda>X ratio. (X, [])" False None] b p
    by simp
qed

section \<open>The number of samples\<close>

lemma generate_samples_loop_length:
  "generate_samples_loop single n s X ri exog = (ys, err, s') \<Longrightarrow>
     length ys \<le> n \<and> (err = None \<longrightarrow> length ys = n) \<and> (err \<noteq> None \<longrightarrow> length ys < n)"
proof (induction n arbitrary: s ys err s')
  case 0
  then show ?case by simp
next
  case (Suc n)
  show ?case
  proof (cases "single s X exog")
    case (Pair res s1)
    show ?thesis
    proof (cases res)
      case (Inl e)
      with Pair Suc.prems show ?thesis by auto
    next
      case (Inr out)
      obtain indices data where out: "out = (indices, data)" by (cases out)
      show ?thesis
      proof (cases "np_concatenate data")
        case (Inl e)
        with Pair Inr out Suc.prems show ?thesis by auto
      next
        case d: (Inr d)
        obtain zs err1 s2 where rest:
          "generate_samples_loop single n s1 X ri exog = (zs, err1, s2)"
          by (cases "generate_samples_loop single n s1 X ri exog") auto
        have "ys = (if ri then WithIndices indices d else DataOnly d) # zs" "err = err1"
          using Suc.prems Pair Inr out d rest by auto
        then show ?thesis using Suc.IH [OF rest] by auto
      qed
    qed
  qed
qed

lemma generate_samples_loop_nth:
  "generate_samples_loop single n s X ri exog = (ys, err, s') \<Longrightarrow> j < length ys \<Longrightarrow>
     \<exists>i d c. fst (single (draw_state single s X exog j) X exog) = Inr (i, d)
       \<and> np_concatenate d = Inr c
       \<and> ys ! j = (if ri then WithIndices i c else DataOnly c)"
proof (induction n arbitrary: s ys err s' j)
  case 0
  then show ?case by simp
next
  case (Suc n)
  show ?case
  proof (cases "single s X exog")
    case (Pair res s1)
    show ?thesis
    proof (cases res)
      case (Inl e)
      with Pair Suc.prems show ?thesis by auto
    next
      case (Inr out)
      obtain indices data where out: "out = (indices, data)" by (cases out)
      show ?thesis
      proof (cases "np_concatenate data")
        case (Inl e)
        with Pair Inr out Suc.prems show ?thesis by auto
      next
        case d: (Inr d)
        obtain zs err1 s2 where rest:
          "generate_samples_loop single n s1 X ri exog = (zs, err1, s2)"
          by (cases "generate_samples_loop single n s1 X ri exog") auto
        have ys: "ys = (if ri then WithIndices indices d else DataOnly d) # zs"
          using Suc.prems(1) Pair Inr out d rest by auto
        show ?thesis
        proof (cases j)
          case 0
          then show ?thesis using ys Pair Inr out d by simp
        next
          case (Suc j')
          then have "j' < length zs" using Suc.prems(2) ys by simp
          then show ?thesis
            using Suc.IH [OF rest, of j'] Suc ys Pair by simp
        qed
      qed
    qed
  qed
qed

lemma generate_samples_loop_raise:
  "generate_samples_loop single n s X ri exog = (ys, Some e, s') \<Longrightarrow>
     fst (single (draw_state single s X exog (length ys)) X exog) = Inl e
     \<or> (\<exists>i d. fst (single (draw_state single s X exog (length ys)) X exog) = Inr (i, d)
            \<and> np_concatenate d = Inl e)"
proof (induction n arbitrary: s ys s')
  case 0
  then show ?case by simp
next
  case (Suc n)
  show ?case
  proof (cases "single s X exog")
    case (Pair res s1)
    show ?thesis
    proof (cases res)
      case (Inl e1)
      with Pair Suc.prems show ?thesis by auto
    next
      case (Inr out)
      obtain indices data where out: "out = (indices, data)" by (cases out)
      show ?thesis
      proof (cases "np_concatenate data")
        case (Inl e1)
        with Pair Inr out Suc.prems show ?thesis by auto
      next
        case d: (Inr d)
        obtain zs err1 s2 where rest:
          "generate_samples_loop single n s1 X ri exog = (zs, err1, s2)"
          by (cases "generate_samples_loop single n s1 X ri exog") auto
        have ys: "ys = (if ri then WithIndices indices d else DataOnly d) # zs"
          and "err1 = Some e" and "s2 = s'"
          using Suc.prems(1) Pair Inr out d rest by auto
        then have "generate_samples_loop single n s1 X ri exog = (zs, Some e, s')"
          using rest by simp
        then show ?thesis
          using Suc.IH [of s1 zs s'] ys Pair by simp
      qed
    qed
  qed
qed

lemma set_n_bootstraps_cases:
  "set_n_bootstraps v = Inr k \<Longrightarrow> 0 < k \<and> v = PyInt (int k)"
  by (cases v) (auto simp: set_n_bootstraps_def split: if_splits)

lemma example_draws:
  "fst (generate_samples generate_samples_single_bootstrap (bootstrap0 2 (Some 2) False)
          [[1], [2], [3]] False None)
     = [DataOnly [[1], [2], [1]], DataOnly [[1], [2], [1]]]
   \<and> fst (snd (generate_samples generate_samples_single_bootstrap
          (bootstrap0 2 (Some 2) False) [[1], [2], [3]] False None)) = None"
  by (simp add: generate_samples_def bootstrap0_def numeral_2_eq_2
      generate_samples_single_bootstrap_def blocks_and_resampler_def generate_blocks_of_def
      sampler_avg_block_length_def BlockLengthSampler_def distribution_of_name_def
      BlockGenerator_def generate_blocks_def blocks_loop.simps sample_length_def
      block_stop_def block_range_def Let_def upt_rec BlockResampler_def check_blocks_def
      prepare_block_weights_def taper_for_def resample_block_indices_and_data_def
      resample_loop.simps next_uniform_def gen0_def tapered_rows_def np_concatenate_def)

lemma example_raising_draws:
  "generate_samples generate_samples_single_bootstrap (bootstrap0 2 (Some 4) False)
     [[1], [2], [3]] False None = ([], Some ValueError, bootstrap0 2 (Some 4) False)"
  by (simp add: generate_samples_def bootstrap0_def numeral_2_eq_2 engine_defs)

text \<open>
  C10, as stated, fails: an instance with \<open>n_bootstraps = 2\<close> does not yield two
  samples when a draw raises. The constructor accepts the block length 4; on three rows
  the block generator refuses it, the first draw raises, and the iteration ends with no
  sample. Through \<open>split\<close> the same happens on four rows, which pass \<open>_check_input\<close>
  (it compares the block length with all four rows) while only the training rows, here
  the first three, reach the draw. And whatever the class, an iteration whose
  single-bootstrap method raises yields nothing.
\<close>

theorem n_bootstraps_fewer_samples_counterexample:
  "BlockBootstrap (PyInt 2) (PyInt 4) None False False False gen0 None None None None
     = Inr (bootstrap0 2 (Some 4) False)
   \<and> n_bootstraps (bootstrap0 2 (Some 4) False) = 2
   \<and> generate_samples generate_samples_single_bootstrap (bootstrap0 2 (Some 4) False)
        [[1], [2], [3]] False None = ([], Some ValueError, bootstrap0 2 (Some 4) False)
   \<and> check_input (bootstrap0 2 (Some 4) False) [[1], [2], [3], [4]] = Inr ()
   \<and> split check_input generate_samples_single_bootstrap (\<lambda>X ratio. (butlast X, [last X]))
        (bootstrap0 2 (Some 4) False) [[1], [2], [3], [4]] False None
       = ([], Some ValueError, bootstrap0 2 (Some 4) False)
   \<and> generate_samples (\<lambda>s X exog. (Inl TypeError, s)) (bootstrap0 2 (Some 2) False)
        [[1], [2], [3]] False None = ([], Some TypeError, bootstrap0 2 (Some 2) False)"
proof -
  let ?b = "bootstrap0 2 (Some 4) False"
  have c: "BlockBootstrap (PyInt 2) (PyInt 4) None False False False gen0 None None None None
             = Inr ?b"
    by (simp add: BlockBootstrap_def set_n_bootstraps_def set_block_length_def bootstrap0_def)
  have n: "n_bootstraps ?b = 2" by (simp add: bootstrap0_def)
  have k: "check_input ?b [[1], [2], [3], [4]] = Inr ()"
    by (simp add: check_input_def base_check_input_def np_diff_def bootstrap0_def)
  have s: "split check_input generate_samples_single_bootstrap
             (\<lambda>X ratio. (butlast X, [last X])) ?b [[1], [2], [3], [4]] False None
           = generate_samples generate_samples_single_bootstrap ?b [[1], [2], [3]] False None"
    by (simp add: split_def k)
  have g: "generate_samples (\<lambda>s X exog. (Inl TypeError, s)) (bootstrap0 2 (Some 2) False)
             [[1], [2], [3]] False None = ([], Some TypeError, bootstrap0 2 (Some 2) False)"
    by (simp add: generate_samples_def bootstrap0_def numeral_2_eq_2)
  show ?thesis
    using c n k g unfolding s example_raising_draws by simp
qed

text \<open>
  C10, amended. The setter stores a positive integer \<open>k\<close> and nothing else: a value
  that is not an integer is a \<open>TypeError\<close>, an integer below 1 a \<open>ValueError\<close>. For
  an instance whose \<open>n_bootstraps\<close> is \<open>k\<close>, whatever the single-bootstrap method
  and the row splitter are, iterating \<open>_generate_samples\<close> or \<open>split\<close> to the end
  yields exactly \<open>k\<close> samples when no exception ends the iteration, and fewer than
  \<open>k\<close> when one does. The samples of \<open>_generate_samples\<close> are those of the
  successive draws, each with its data concatenated, and the exception that ends the
  iteration is that of the next draw or of its concatenation.
\<close>

theorem n_bootstraps_samples:
  assumes "set_n_bootstraps v = Inr k" and "n_bootstraps self = k"
  shows "0 < k \<and> v = PyInt (int k)
     \<and> set_n_bootstraps PyNone = Inl TypeError \<and> set_n_bootstraps PyOther = Inl TypeError
     \<and> (m \<le> 0 \<longrightarrow> set_n_bootstraps (PyInt m) = Inl ValueError)
     \<and> (generate_samples single self X return_indices exog = (ys, err, s') \<longrightarrow>
          (err = None \<longrightarrow> length ys = k) \<and> (err \<noteq> None \<longrightarrow> length ys < k)
          \<and> (\<forall>j<length ys. \<exists>i d c.
                fst (single (draw_state single self X exog j) X exog) = Inr (i, d)
                \<and> np_concatenate d = Inr c
                \<and> ys ! j = (if return_indices then WithIndices i c else DataOnly c))
          \<and> (\<forall>e. err = Some e \<longrightarrow>
                fst (single (draw_state single self X exog (length ys)) X exog) = Inl e
                \<or> (\<exists>i d. fst (single (draw_state single self X exog (length ys)) X exog)
                            = Inr (i, d)
                       \<and> np_concatenate d = Inl e)))
     \<and> (split check single time_series_split self X return_indices exog = (zs, err', s'')
        \<longrightarrow> (err' = None \<longrightarrow> length zs = k) \<and> (err' \<noteq> None \<longrightarrow> length zs < k))"
proof -
  have pos: "0 < k" and v: "v = PyInt (int k)"
    using set_n_bootstraps_cases [OF assms(1)] by simp_all
  have t: "set_n_bootstraps PyNone = Inl TypeError" "set_n_bootstraps PyOther = Inl TypeError"
    "m \<le> 0 \<longrightarrow> set_n_bootstraps (PyInt m) = Inl ValueError"
    by (simp_all add: set_n_bootstraps_def)
  have g: "(err1 = None \<longrightarrow> length ys' = k) \<and> (err1 \<noteq> None \<longrightarrow> length ys' < k)"
    if "generate_samples single self X' ri ex = (ys', err1, t)" for X' ri ex ys' err1 t
    using generate_samples_loop_length [of single k self X' ri ex ys' err1 t] that assms(2)
    by (simp add: generate_samples_def)
  have g1: "generate_samples single self X return_indices exog = (ys, err, s') \<longrightarrow>
          (err = None \<longrightarrow> length ys = k) \<and> (err \<noteq> None \<longrightarrow> length ys < k)
          \<and> (\<forall>j<length ys. \<exists>i d c.
                fst (single (draw_state single self X exog j) X exog) = Inr (i, d)
                \<and> np_concatenate d = Inr c
                \<and> ys ! j = (if return_indices then WithIndices i c else DataOnly c))
          \<and> (\<forall>e. err = Some e \<longrightarrow>
                fst (single (draw_state single self X exog (length ys)) X exog) = Inl e
                \<or> (\<exists>i d. fst (single (draw_state single self X exog (length ys)) X exog)
                            = Inr (i, d)
                       \<and> np_concatenate d = Inl e))"
  proof
    assume a: "generate_samples single self X return_indices exog = (ys, err, s')"
    then have l: "generate_samples_loop single k self X return_indices exog = (ys, err, s')"
      using assms(2) by (simp add: generate_samples_def)
    have c1: "\<forall>j<length ys. \<exists>i d c.
                fst (single (draw_state single self X exog j) X exog) = Inr (i, d)
                \<and> np_concatenate d = Inr c
                \<and> ys ! j = (if return_indices then WithIndices i c else DataOnly c)"
      using generate_samples_loop_nth [OF l] by blast
    have c2: "\<forall>e. err = Some e \<longrightarrow>
                fst (single (draw_state single self X exog (length ys)) X exog) = Inl e
                \<or> (\<exists>i d. fst (single (draw_state single self X exog (length ys)) X exog)
                            = Inr (i, d)
                       \<and> np_concatenate d = Inl e)"
      using generate_samples_loop_raise [of single k self X return_indices exog ys _ s'] l
      by blast
    show "(err = None \<longrightarrow> length ys = k) \<and> (err \<noteq> None \<longrightarrow> length ys < k)
          \<and> (\<forall>j<length ys. \<exists>i d c.
                fst (single (draw_state single self X exog j) X exog) = Inr (i, d)
                \<and> np_concatenate d = Inr c
                \<and> ys ! j = (if return_indices then WithIndices i c else DataOnly c))
          \<and> (\<forall>e. err = Some e \<longrightarrow>
                fst (single (draw_state single self X exog (length ys)) X exog) = Inl e
                \<or> (\<exists>i d. fst (single (draw_state single self X exog (length ys)) X exog)
                            = Inr (i, d)
                       \<and> np_concatenate d = Inl e))"
      using g [OF a] c1 c2 by blast
  qed
  have s1: "split check single time_series_split self X return_indices exog = (zs, err', s'')
        \<longrightarrow> (err' = None \<longrightarrow> length zs = k) \<and> (err' \<noteq> None \<longrightarrow> length zs < k)"
    using g pos by (auto simp: split_def Let_def split: sum.splits option.splits)
  show ?thesis using pos v t g1 s1 by blast
qed

theorem n_bootstraps_samples_witness:
  "set_n_bootstraps (PyInt 2) = Inr 2
   \<and> n_bootstraps (bootstrap0 2 (Some 2) False) = 2
   \<and> set_n_bootstraps (PyInt 0) = Inl ValueError
   \<and> fst (snd (generate_samples generate_samples_single_bootstrap
          (bootstrap0 2 (Some 2) False) [[1], [2], [3]] False None)) = None
   \<and> length (fst (generate_samples generate_samples_single_bootstrap
          (bootstrap0 2 (Some 2) False) [[1], [2], [3]] False None)) = 2
   \<and> fst (snd (split check_input generate_samples_single_bootstrap
          (\<lambda>X ratio. (butlast X, [last X])) (bootstrap0 2 (Some 2) False)
          [[1], [2], [3], [4]] False None)) = None
   \<and> length (fst (split check_input generate_samples_single_bootstrap
          (\<lambda>X ratio. (butlast X, [last X])) (bootstrap0 2 (Some 2) False)
          [[1], [2], [3], [4]] False None)) = 2
   \<and> n_bootstraps (bootstrap0 2 (Some 4) False) = 2
   \<and> fst (snd (generate_samples generate_samples_single_bootstrap
          (bootstrap0 2 (Some 4) False) [[1], [2], [3]] False None)) = Some ValueError
   \<and> length (fst (generate_samples generate_samples_single_bootstrap
          (bootstrap0 2 (Some 4) False) [[1], [2], [3]] False None)) < 2"
proof -
  let ?self = "bootstrap0 2 (Some 2) False"
  let ?g = "generate_samples generate_samples_single_bootstrap ?self [[1], [2], [3]] False None"
  let ?s = "split check_input generate_samples_single_bootstrap
              (\<lambda>X ratio. (butlast X, [last X])) ?self [[1], [2], [3], [4]] False None"
  let ?r = "bootstrap0 2 (Some 4) False"
  let ?h = "generate_samples generate_samples_single_bootstrap ?r [[1], [2], [3]] False None"
  have v: "set_n_bootstraps (PyInt 2) = Inr 2" by (simp add: set_n_bootstraps_def)
  have k: "n_bootstraps ?self = 2" "n_bootstraps ?r = 2" by (simp_all add: bootstrap0_def)
  have sg: "?s = ?g"
    by (simp add: split_def check_input_def base_check_input_def np_diff_def bootstrap0_def)
  have e: "fst (snd ?g) = None" using example_draws by simp
  then have c: "?g = (fst ?g, None, snd (snd ?g))"
    by (metis prod.collapse)
  have h: "?h = ([], Some ValueError, ?r)" by (rule example_raising_draws)
  note t1 = n_bootstraps_samples [OF v k(1), of 0 generate_samples_single_bootstrap
      "[[1], [2], [3]]" False None "fst ?g" None "snd (snd ?g)"]
  note t2 = n_bootstraps_samples [OF v k(2), of 0 generate_samples_single_bootstrap
      "[[1], [2], [3]]" False None "[]" "Some ValueError" ?r]
  have l1: "length (fst ?g) = 2" using t1 c by blast
  have z: "set_n_bootstraps (PyInt 0) = Inl ValueError" using t1 by simp
  have l2: "length (fst ?h) < 2" using t2 h by simp
  show ?thesis using v k e sg l1 z l2 h by simp
qed

section \<open>Stored blocks and resampler\<close>

lemma first_draw_stores:
  assumes "\<not> combine_generation_and_sampling_flag self" "blocks self = None"
    and "generate_samples_single_bootstrap self X exog = (Inr out, s')"
  shows "\<exists>bs br s1. generate_blocks_of self X = (Inr bs, s1)
           \<and> BlockResampler X bs (block_weights self) (tapered_weights self) = Inr br
           \<and> blocks s' = Some bs \<and> block_resampler s' = Some br"
proof -
  obtain res s1 where g: "generate_blocks_of self X = (res, s1)"
    by (cases "generate_blocks_of self X")
  obtain g1 where s1: "s1 = self\<lparr>rng := g1\<rparr>"
    using generate_blocks_of_frame [OF g] by blast
  show ?thesis
    using assms g s1
    by (auto simp: generate_samples_single_bootstrap_def blocks_and_resampler_def
        split: sum.splits option.splits prod.splits)
qed

lemma later_draw_reuses:
  assumes "\<not> combine_generation_and_sampling_flag self" "blocks self = Some bs"
    and "block_resampler self = Some br"
  shows "generate_samples_single_bootstrap self X exog =
           (case resample_block_indices_and_data br (rng self) of
              Inl e \<Rightarrow> (Inl e, self)
            | Inr (i, d, r) \<Rightarrow> (Inr (i, d), self\<lparr>rng := r\<rparr>))"
proof -
  have "self\<lparr>rng := r, blocks := Some bs, block_resampler := Some br\<rparr> = self\<lparr>rng := r\<rparr>"
    for r
    using assms(2,3) by (cases self) simp
  then show ?thesis
    using assms
    by (auto simp: generate_samples_single_bootstrap_def blocks_and_resampler_def
        split: sum.splits option.splits prod.splits)
qed

lemma combined_draw_regenerates:
  assumes "combine_generation_and_sampling_flag self"
  shows "generate_samples_single_bootstrap self X exog =
           (case generate_blocks_of self X of
              (Inl e, s) \<Rightarrow> (Inl e, s)
            | (Inr bs', s) \<Rightarrow>
                (case BlockResampler X bs' (block_weights self) (tapered_weights self) of
                   Inl e \<Rightarrow> (Inl e, s)
                 | Inr br' \<Rightarrow>
                     (case resample_block_indices_and_data br' (rng s) of
                        Inl e \<Rightarrow> (Inl e, s)
                      | Inr (i, d, r) \<Rightarrow> (Inr (i, d), s\<lparr>rng := r\<rparr>))))"
proof -
  obtain res s1 where g: "generate_blocks_of self X = (res, s1)"
    by (cases "generate_blocks_of self X")
  obtain g1 where s1: "s1 = self\<lparr>rng := g1\<rparr>"
    using generate_blocks_of_frame [OF g] by blast
  show ?thesis
    using assms g s1
    by (auto simp: generate_samples_single_bootstrap_def blocks_and_resampler_def
        split: sum.splits option.splits prod.splits)
qed

lemma stored_kept_by_draw:
  assumes "\<not> combine_generation_and_sampling_flag self" "blocks self = Some bs"
    and "block_resampler self = Some br"
    and "generate_samples_single_bootstrap self X exog = (res, s)"
  shows "\<not> combine_generation_and_sampling_flag s \<and> blocks s = Some bs
         \<and> block_resampler s = Some br"
  using assms(4) assms(1,2,3) unfolding later_draw_reuses [OF assms(1,2,3)]
  by (auto split: sum.splits prod.splits)

lemma stored_kept_by_loop:
  "\<not> combine_generation_and_sampling_flag self \<Longrightarrow> blocks self = Some bs \<Longrightarrow>
   block_resampler self = Some br \<Longrightarrow>
   generate_samples_loop generate_samples_single_bootstrap n self X ri exog = (ys, err, s) \<Longrightarrow>
     blocks s = Some bs \<and> block_resampler s = Some br"
proof (induction n arbitrary: self ys err s)
  case 0
  then show ?case by simp
next
  case (Suc n)
  obtain res s1 where d: "generate_samples_single_bootstrap self X exog = (res, s1)"
    by (cases "generate_samples_single_bootstrap self X exog")
  have k: "\<not> combine_generation_and_sampling_flag s1" "blocks s1 = Some bs"
    "block_resampler s1 = Some br"
    using stored_kept_by_draw [OF Suc.prems(1,2,3) d] by simp_all
  show ?case
  proof (cases res)
    case (Inl e)
    then show ?thesis using Suc.prems(4) d k by simp
  next
    case (Inr out)
    obtain i dat where out: "out = (i, dat)" by (cases out)
    show ?thesis
    proof (cases "np_concatenate dat")
      case (Inl e)
      then show ?thesis using Suc.prems(4) d k Inr out by simp
    next
      case c: (Inr c)
      obtain zs e2 s2 where rest:
        "generate_samples_loop generate_samples_single_bootstrap n s1 X ri exog = (zs, e2, s2)"
        by (cases "generate_samples_loop generate_samples_single_bootstrap n s1 X ri exog") auto
      have "s = s2" using Suc.prems(4) d Inr out c rest by simp
      then show ?thesis using Suc.IH [OF k rest] by simp
    qed
  qed
qed

text \<open>
  C8. When generation and sampling are not combined, the first draw generates the block
  partition and builds the resampler, and stores both on the instance; every later draw
  (within one run of \<open>n_bootstraps\<close> draws, and after it) finds them stored, generates
  nothing and only resamples from the stored resampler, whatever data it is handed. When
  the flag is set, every draw generates the blocks and builds the resampler afresh and
  stores neither.
\<close>

theorem stored_partition_reused:
  "(\<not> combine_generation_and_sampling_flag self \<and> blocks self = None
      \<and> generate_samples_single_bootstrap self X exog = (Inr out, s')
    \<longrightarrow> (\<exists>bs0 br0 s1. generate_blocks_of self X = (Inr bs0, s1)
           \<and> BlockResampler X bs0 (block_weights self) (tapered_weights self) = Inr br0
           \<and> blocks s' = Some bs0 \<and> block_resampler s' = Some br0))
   \<and> (\<not> combine_generation_and_sampling_flag self \<and> blocks self = Some bs
       \<and> block_resampler self = Some br
    \<longrightarrow> generate_samples_single_bootstrap self X exog =
           (case resample_block_indices_and_data br (rng self) of
              Inl e \<Rightarrow> (Inl e, self)
            | Inr (i, d, r) \<Rightarrow> (Inr (i, d), self\<lparr>rng := r\<rparr>))
        \<and> blocks (snd (snd (generate_samples generate_samples_single_bootstrap self X
             return_indices exog))) = Some bs
        \<and> block_resampler (snd (snd (generate_samples generate_samples_single_bootstrap self X
             return_indices exog))) = Some br)
   \<and> (combine_generation_and_sampling_flag self
    \<longrightarrow> generate_samples_single_bootstrap self X exog =
           (case generate_blocks_of self X of
              (Inl e, s) \<Rightarrow> (Inl e, s)
            | (Inr bs', s) \<Rightarrow>
                (case BlockResampler X bs' (block_weights self) (tapered_weights self) of
                   Inl e \<Rightarrow> (Inl e, s)
                 | Inr br' \<Rightarrow>
                     (case resample_block_indices_and_data br' (rng s) of
                        Inl e \<Rightarrow> (Inl e, s)
                      | Inr (i, d, r) \<Rightarrow> (Inr (i, d), s\<lparr>rng := r\<rparr>))))
        \<and> blocks (snd (generate_samples_single_bootstrap self X exog)) = blocks self
        \<and> block_resampler (snd (generate_samples_single_bootstrap self X exog))
            = block_resampler self)"
proof (intro conjI impI)
  assume a: "\<not> combine_generation_and_sampling_flag self \<and> blocks self = None
      \<and> generate_samples_single_bootstrap self X exog = (Inr out, s')"
  then show "\<exists>bs0 br0 s1. generate_blocks_of self X = (Inr bs0, s1)
           \<and> BlockResampler X bs0 (block_weights self) (tapered_weights self) = Inr br0
           \<and> blocks s' = Some bs0 \<and> block_resampler s' = Some br0"
    using first_draw_stores [of self X exog out s'] by blast
next
  assume a: "\<not> combine_generation_and_sampling_flag self \<and> blocks self = Some bs
       \<and> block_resampler self = Some br"
  then show "generate_samples_single_bootstrap self X exog =
           (case resample_block_indices_and_data br (rng self) of
              Inl e \<Rightarrow> (Inl e, self)
            | Inr (i, d, r) \<Rightarrow> (Inr (i, d), self\<lparr>rng := r\<rparr>))"
    using later_draw_reuses [of self bs br X exog] by blast
  obtain ys err s where l: "generate_samples generate_samples_single_bootstrap self X
             return_indices exog = (ys, err, s)"
    by (cases "generate_samples generate_samples_single_bootstrap self X return_indices exog")
      auto
  then have "blocks s = Some bs \<and> block_resampler s = Some br"
    using a stored_kept_by_loop [of self bs br "n_bootstraps self" X return_indices exog ys err s]
    by (simp add: generate_samples_def)
  then show "blocks (snd (snd (generate_samples generate_samples_single_bootstrap self X
             return_indices exog))) = Some bs"
    "block_resampler (snd (snd (generate_samples generate_samples_single_bootstrap self X
             return_indices exog))) = Some br"
    using l by simp_all
next
  assume c: "combine_generation_and_sampling_flag self"
  show e: "generate_samples_single_bootstrap self X exog =
           (case generate_blocks_of self X of
              (Inl e, s) \<Rightarrow> (Inl e, s)
            | (Inr bs', s) \<Rightarrow>
                (case BlockResampler X bs' (block_weights self) (tapered_weights self) of
                   Inl e \<Rightarrow> (Inl e, s)
                 | Inr br' \<Rightarrow>
                     (case resample_block_indices_and_data br' (rng s) of
                        Inl e \<Rightarrow> (Inl e, s)
                      | Inr (i, d, r) \<Rightarrow> (Inr (i, d), s\<lparr>rng := r\<rparr>))))"
    using combined_draw_regenerates [OF c] .
  obtain res s1 where g: "generate_blocks_of self X = (res, s1)"
    by (cases "generate_blocks_of self X")
  obtain g1 where s1: "s1 = self\<lparr>rng := g1\<rparr>"
    using generate_blocks_of_frame [OF g] by blast
  show "blocks (snd (generate_samples_single_bootstrap self X exog)) = blocks self"
    "block_resampler (snd (generate_samples_single_bootstrap self X exog))
            = block_resampler self"
    unfolding e using g s1 by (auto split: sum.splits prod.splits)
qed

lemma example_first_draw:
  "generate_samples_single_bootstrap (bootstrap0 2 (Some 2) False) [[1], [2], [3]] None
     = (Inr ([[0, 1], [0]], [[[1], [2]], [[1]]]),
        (bootstrap0 2 (Some 2) False)
          \<lparr>rng := gen0\<lparr>gen_pos := 2\<rparr>, blocks := Some [[0, 1], [2]],
           block_resampler :=
             Some \<lparr>br_X = [[1], [2], [3]], br_blocks = [[0, 1], [2]],
                   br_block_weights = [1 / 2, 1 / 2],
                   br_tapered_weights = [[1, 1], [1]]\<rparr>\<rparr>)"
  by (simp add: bootstrap0_def engine_defs)

lemma example_blocks:
  "generate_blocks_of (bootstrap0 2 (Some 2) False) [[1], [2], [3]]
     = (Inr [[0, 1], [2]], bootstrap0 2 (Some 2) False)"
  by (simp add: bootstrap0_def engine_defs)

lemma example_resample:
  "resample_block_indices_and_data
     \<lparr>br_X = [[1], [2], [3]], br_blocks = [[0, 1], [2]], br_block_weights = [1 / 2, 1 / 2],
      br_tapered_weights = [[1, 1], [1]]\<rparr> (gen0\<lparr>gen_pos := 2\<rparr>)
   = Inr ([[0, 1], [0]], [[[1], [2]], [[1]]], gen0\<lparr>gen_pos := 4\<rparr>)"
  by (simp add: engine_defs)

lemma example_combined_draw:
  "blocks (snd (generate_samples_single_bootstrap (bootstrap0 2 (Some 2) True)
      [[1], [2], [3]] None)) = None"
  by (simp add: bootstrap0_def engine_defs)

theorem stored_partition_reused_witness:
  "\<not> combine_generation_and_sampling_flag (bootstrap0 2 (Some 2) False)
   \<and> blocks (bootstrap0 2 (Some 2) False) = None
   \<and> fst (generate_samples_single_bootstrap (bootstrap0 2 (Some 2) False)
        [[1], [2], [3]] None) = Inr ([[0, 1], [0]], [[[1], [2]], [[1]]])
   \<and> blocks (snd (generate_samples_single_bootstrap (bootstrap0 2 (Some 2) False)
        [[1], [2], [3]] None)) = Some [[0, 1], [2]]
   \<and> fst (generate_samples_single_bootstrap
        (snd (generate_samples_single_bootstrap (bootstrap0 2 (Some 2) False)
           [[1], [2], [3]] None))
        [[7], [8], [9]] None) = Inr ([[0, 1], [0]], [[[1], [2]], [[1]]])
   \<and> combine_generation_and_sampling_flag (bootstrap0 2 (Some 2) True)
   \<and> blocks (snd (generate_samples_single_bootstrap (bootstrap0 2 (Some 2) True)
        [[1], [2], [3]] None)) = None"
proof -
  let ?b = "bootstrap0 2 (Some 2) False"
  let ?c = "bootstrap0 2 (Some 2) True"
  let ?X = "[[1], [2], [3::real]]"
  let ?br = "\<lparr>br_X = ?X, br_blocks = [[0, 1], [2]], br_block_weights = [1 / 2, 1 / 2],
              br_tapered_weights = [[1, 1], [1]]\<rparr>"
  let ?s = "snd (generate_samples_single_bootstrap ?b ?X None)"
  have f: "\<not> combine_generation_and_sampling_flag ?b" "blocks ?b = None"
    "combine_generation_and_sampling_flag ?c" "blocks ?c = None"
    by (simp_all add: bootstrap0_def)
  have d1: "generate_samples_single_bootstrap ?b ?X None
              = (Inr ([[0, 1], [0]], [[[1], [2]], [[1]]]), ?s)"
    using example_first_draw by simp
  have "\<exists>bs0 br0 s1. generate_blocks_of ?b ?X = (Inr bs0, s1)
           \<and> BlockResampler ?X bs0 (block_weights ?b) (tapered_weights ?b) = Inr br0
           \<and> blocks ?s = Some bs0 \<and> block_resampler ?s = Some br0"
    using stored_partition_reused [where self = ?b and X = ?X and exog = None
        and out = "([[0, 1], [0]], [[[1], [2]], [[1]]])" and s' = ?s]
      f(1,2) d1 by blast
  then have stored: "blocks ?s = Some [[0, 1], [2]]"
    using example_blocks by auto
  have s: "\<not> combine_generation_and_sampling_flag ?s" "block_resampler ?s = Some ?br"
    "rng ?s = gen0\<lparr>gen_pos := 2\<rparr>"
    using example_first_draw by (simp_all add: bootstrap0_def)
  have "generate_samples_single_bootstrap ?s [[7], [8], [9]] None =
           (case resample_block_indices_and_data ?br (rng ?s) of
              Inl e \<Rightarrow> (Inl e, ?s)
            | Inr (i, d, r) \<Rightarrow> (Inr (i, d), ?s\<lparr>rng := r\<rparr>))"
    using stored_partition_reused [where self = ?s and bs = "[[0, 1], [2]]" and br = ?br
        and X = "[[7], [8], [9]]" and exog = None]
      s(1,2) stored by blast
  then have d2: "fst (generate_samples_single_bootstrap ?s [[7], [8], [9]] None)
                   = Inr ([[0, 1], [0]], [[[1], [2]], [[1]]])"
    using s(3) example_resample by simp
  have "blocks (snd (generate_samples_single_bootstrap ?c ?X None)) = blocks ?c"
    using stored_partition_reused [where self = ?c and X = ?X and exog = None] f(3) by blast
  then have d3: "blocks (snd (generate_samples_single_bootstrap ?c ?X None)) = None"
    using f(4) by simp
  have d0: "fst (generate_samples_single_bootstrap ?b ?X None)
              = Inr ([[0, 1], [0]], [[[1], [2]], [[1]]])"
    using example_first_draw by simp
  show ?thesis using f d0 stored d2 d3 by simp
qed

section \<open>The lengths of a resample\<close>

lemma categorical_less: "ps \<noteq> [] \<Longrightarrow> categorical ps u < length ps"
  by (induction ps u rule: categorical.induct) auto

lemma taper_for_length: "taper_for src n = Inr t \<Longrightarrow> length t = n"
  by (auto simp: taper_for_def split: option.splits sum.splits if_splits)

lemma prepare_tapered_weights_lengths:
  "prepare_tapered_weights src bs = Inr ts \<Longrightarrow>
     length ts = length bs \<and> (\<forall>k<length bs. length (ts ! k) = length (bs ! k))"
proof (induction bs arbitrary: ts)
  case Nil
  then show ?case by simp
next
  case (Cons b bs)
  obtain t where t: "taper_for src (length b) = Inr t"
    using Cons.prems by (auto split: sum.splits)
  obtain ts' where ts': "prepare_tapered_weights src bs = Inr ts'"
    using Cons.prems t by (auto split: sum.splits)
  have ts: "ts = t # ts'" using Cons.prems t ts' by simp
  have ih: "length ts' = length bs \<and> (\<forall>k<length bs. length (ts' ! k) = length (bs ! k))"
    using Cons.IH [OF ts'] .
  show ?case
    using ih taper_for_length [OF t] ts by (auto simp: nth_Cons split: nat.splits)
qed

lemma prepare_block_weights_length:
  "prepare_block_weights n bs src = Inr ws \<Longrightarrow> length ws = length bs"
  by (auto simp: prepare_block_weights_def Let_def split: option.splits sum.splits if_splits)

lemma check_blocks_ok:
  "check_blocks n bs = Inr u \<Longrightarrow>
     bs \<noteq> [] \<and> [] \<notin> set bs \<and> (\<forall>b\<in>set bs. \<forall>i\<in>set b. i < n)"
  by (auto simp: check_blocks_def list_ex_iff not_le split: if_splits)

lemma BlockResampler_wf:
  assumes "BlockResampler X bs bw tw = Inr br"
  shows "wf_resampler br \<and> br_X br = X \<and> br_blocks br = bs"
proof -
  obtain u where c: "check_blocks (length X) bs = Inr u"
    using assms by (auto simp: BlockResampler_def split: sum.splits)
  obtain ws where w: "prepare_block_weights (length X) bs bw = Inr ws"
    using assms c by (auto simp: BlockResampler_def split: sum.splits)
  obtain ts where t: "prepare_tapered_weights tw bs = Inr ts"
    using assms c w by (auto simp: BlockResampler_def split: sum.splits)
  have br: "br = \<lparr>br_X = X, br_blocks = bs, br_block_weights = ws, br_tapered_weights = ts\<rparr>"
    using assms c w t by (simp add: BlockResampler_def)
  show ?thesis
    using check_blocks_ok [OF c] prepare_block_weights_length [OF w]
      prepare_tapered_weights_lengths [OF t] br
    by (simp add: wf_resampler_def)
qed

lemma tapered_rows_shape:
  assumes "length taper = length b" "\<forall>i\<in>set b. i < length X" "\<forall>row\<in>set X. length row = m"
  shows "length (tapered_rows X (take n b) taper) = length (take n b)
         \<and> (\<forall>row\<in>set (tapered_rows X (take n b) taper). length row = m)"
proof -
  have l: "length (tapered_rows X (take n b) taper) = length (take n b)"
    using assms(1) by (simp add: tapered_rows_def)
  have "length row = m" if "row \<in> set (tapered_rows X (take n b) taper)" for row
  proof -
    have "\<exists>i t. (i, t) \<in> set (zip (take n b) taper) \<and> row = map (\<lambda>v. t * v) (X ! i)"
      using that by (auto simp: tapered_rows_def)
    then obtain i t where it: "(i, t) \<in> set (zip (take n b) taper)"
      "row = map (\<lambda>v. t * v) (X ! i)"
      by blast
    have "i \<in> set (take n b)" using it(1) by (rule set_zip_leftD)
    then have "i \<in> set b" by (rule in_set_takeD)
    then have "X ! i \<in> set X" using assms(2) by simp
    then show ?thesis using it(2) assms(3) by simp
  qed
  then show ?thesis using l by blast
qed

lemma resample_loop_shape:
  "wf_resampler br \<Longrightarrow> \<forall>row\<in>set (br_X br). length row = m \<Longrightarrow> tot \<le> length (br_X br) \<Longrightarrow>
   length (concat idxs) = tot \<Longrightarrow> length (concat datas) = tot \<Longrightarrow>
   \<forall>row\<in>set (concat datas). length row = m \<Longrightarrow>
   \<forall>i\<in>set (concat idxs). i < length (br_X br) \<Longrightarrow>
     \<exists>idxs' datas' r'. resample_loop br tot idxs datas r = Inr (idxs', datas', r')
       \<and> length (concat idxs') = length (br_X br)
       \<and> length (concat datas') = length (br_X br)
       \<and> (\<forall>row\<in>set (concat datas'). length row = m)
       \<and> (\<forall>i\<in>set (concat idxs'). i < length (br_X br))"
proof (induction br tot idxs datas r rule: resample_loop.induct)
  case (1 br tot idxs datas r)
  show ?case
  proof (cases "length (br_X br) \<le> tot")
    case True
    then have "resample_loop br tot idxs datas r = Inr (idxs, datas, r)"
      by (subst resample_loop.simps) simp
    moreover have "tot = length (br_X br)" using True 1(4) by simp
    ultimately show ?thesis using 1(5,6,7,8) by simp
  next
    case False
    define k where "k = categorical (br_block_weights br) (fst (next_uniform r))"
    define r1 where "r1 = snd (next_uniform r)"
    define block where "block = take (length (br_X br) - tot) (br_blocks br ! k)"
    define data where "data = tapered_rows (br_X br) block (br_tapered_weights br ! k)"
    have wf: "br_blocks br \<noteq> []" "[] \<notin> set (br_blocks br)"
      "\<forall>b\<in>set (br_blocks br). \<forall>i\<in>set b. i < length (br_X br)"
      "length (br_block_weights br) = length (br_blocks br)"
      "length (br_tapered_weights br) = length (br_blocks br)"
      "\<forall>k<length (br_blocks br). length (br_tapered_weights br ! k) = length (br_blocks br ! k)"
      using 1(2) by (simp_all add: wf_resampler_def)
    have "br_block_weights br \<noteq> []" using wf(1,4) by auto
    then have k: "k < length (br_blocks br)"
      using categorical_less [of "br_block_weights br" "fst (next_uniform r)"] wf(4)
      by (simp add: k_def)
    then have kt: "\<not> (length (br_blocks br) \<le> k \<or> length (br_tapered_weights br) \<le> k)"
      using wf(5) by simp
    have bk: "br_blocks br ! k \<in> set (br_blocks br)" using k by simp
    then have "br_blocks br ! k \<noteq> []" using wf(2) by metis
    then have ne: "block \<noteq> []" using False by (simp add: block_def)
    have bl: "length block \<le> length (br_X br) - tot" by (simp add: block_def)
    have sh: "length data = length block \<and> (\<forall>row\<in>set data. length row = m)"
      unfolding data_def block_def
      using tapered_rows_shape [of "br_tapered_weights br ! k" "br_blocks br ! k" "br_X br" m
          "length (br_X br) - tot"] wf(3,6) k bk 1(3)
      by blast
    have bi: "\<forall>i\<in>set block. i < length (br_X br)"
      using wf(3) bk by (auto simp: block_def dest: in_set_takeD)
    have step: "resample_loop br tot idxs datas r
                  = resample_loop br (tot + length block) (idxs @ [block]) (datas @ [data]) r1"
      using False kt ne
      by (subst resample_loop.simps) (simp add: k_def r1_def block_def data_def Let_def)
    have "\<exists>idxs' datas' r'.
            resample_loop br (tot + length block) (idxs @ [block]) (datas @ [data]) r1
              = Inr (idxs', datas', r')
            \<and> length (concat idxs') = length (br_X br)
            \<and> length (concat datas') = length (br_X br)
            \<and> (\<forall>row\<in>set (concat datas'). length row = m)
            \<and> (\<forall>i\<in>set (concat idxs'). i < length (br_X br))"
    proof (rule 1(1) [OF False k_def r1_def kt block_def data_def ne 1(2) 1(3)])
      show "tot + length block \<le> length (br_X br)" using bl False by simp
      show "length (concat (idxs @ [block])) = tot + length block" using 1(5) by simp
      show "length (concat (datas @ [data])) = tot + length block" using 1(6) sh by simp
      show "\<forall>row\<in>set (concat (datas @ [data])). length row = m" using 1(7) sh by auto
      show "\<forall>i\<in>set (concat (idxs @ [block])). i < length (br_X br)" using 1(8) bi by auto
    qed
    then show ?thesis using step by simp
  qed
qed

lemma same_columns_uniform: "\<forall>row\<in>set xs. length row = m \<Longrightarrow> same_columns xs"
  by (cases xs) (auto simp: list_all_iff)

text \<open>
  C2. For a resampler that the constructor has accepted (a non-empty partition into
  non-empty blocks of valid row indices, with valid weights) over a source array of
  \<open>N\<close> rows of \<open>M\<close> columns each, \<open>resample_block_indices_and_data\<close> returns: it
  does not raise, and its loop ends. It returns a list of index arrays whose
  concatenation has length \<open>N\<close>, every index a row of the source, and a list of data
  arrays that \<open>np.concatenate\<close> accepts and whose concatenation has \<open>N\<close> rows of
  \<open>M\<close> columns.
\<close>

theorem resample_lengths:
  assumes "BlockResampler X bs bw tw = Inr br" and "\<forall>row\<in>set X. length row = m"
  shows "\<exists>idxs datas r'.
           resample_block_indices_and_data br r = Inr (idxs, datas, r')
           \<and> length (concat idxs) = length X
           \<and> (\<forall>i\<in>set (concat idxs). i < length X)
           \<and> np_concatenate datas = Inr (concat datas)
           \<and> length (concat datas) = length X
           \<and> (\<forall>row\<in>set (concat datas). length row = m)"
proof -
  have wf: "wf_resampler br" and x: "br_X br = X"
    using BlockResampler_wf [OF assms(1)] by simp_all
  have "\<exists>idxs datas r'. resample_loop br 0 [] [] r = Inr (idxs, datas, r')
       \<and> length (concat idxs) = length (br_X br)
       \<and> length (concat datas) = length (br_X br)
       \<and> (\<forall>row\<in>set (concat datas). length row = m)
       \<and> (\<forall>i\<in>set (concat idxs). i < length (br_X br))"
    using assms(2) x by (intro resample_loop_shape [OF wf]) simp_all
  then obtain idxs datas r' where res:
    "resample_block_indices_and_data br r = Inr (idxs, datas, r')"
    "length (concat idxs) = length X" "length (concat datas) = length X"
    "\<forall>row\<in>set (concat datas). length row = m"
    "\<forall>i\<in>set (concat idxs). i < length X"
    unfolding resample_block_indices_and_data_def x by blast
  obtain b where b: "b \<in> set (br_blocks br)"
    using wf by (cases "br_blocks br") (auto simp: wf_resampler_def)
  then have "b \<noteq> []" using wf by (auto simp: wf_resampler_def)
  then obtain i where "i \<in> set b" by (cases b) auto
  then have "i < length X" using wf b x by (auto simp: wf_resampler_def)
  then have "datas \<noteq> []" using res(3) by auto
  then have "np_concatenate datas = Inr (concat datas)"
    using same_columns_uniform [OF res(4)] by (simp add: np_concatenate_def)
  then show ?thesis using res by blast
qed

theorem resample_lengths_witness:
  "BlockResampler [[1], [2], [3]] [[0, 1], [2]] None None
     = Inr \<lparr>br_X = [[1], [2], [3]], br_blocks = [[0, 1], [2]],
            br_block_weights = [1 / 2, 1 / 2], br_tapered_weights = [[1, 1], [1]]\<rparr>
   \<and> list_all (\<lambda>row. length row = 1) [[1], [2], [3::real]]
   \<and> resample_block_indices_and_data
        \<lparr>br_X = [[1], [2], [3]], br_blocks = [[0, 1], [2]],
         br_block_weights = [1 / 2, 1 / 2], br_tapered_weights = [[1, 1], [1]]\<rparr>
        (gen0\<lparr>gen_pos := 2\<rparr>)
       = Inr ([[0, 1], [0]], [[[1], [2]], [[1]]], gen0\<lparr>gen_pos := 4\<rparr>)
   \<and> length (concat [[0, 1], [0::nat]]) = length [[1], [2], [3::real]]
   \<and> np_concatenate [[[1], [2]], [[1]]] = Inr [[1], [2], [1]]"
proof -
  let ?X = "[[1], [2], [3::real]]"
  let ?br = "\<lparr>br_X = ?X, br_blocks = [[0, 1], [2]], br_block_weights = [1 / 2, 1 / 2],
              br_tapered_weights = [[1, 1], [1]]\<rparr>"
  have c: "BlockResampler ?X [[0, 1], [2]] None None = Inr ?br"
    by (simp add: BlockResampler_def check_blocks_def prepare_block_weights_def
        taper_for_def Let_def)
  have m: "\<forall>row\<in>set ?X. length row = 1" by simp
  have "\<exists>idxs datas r'.
           resample_block_indices_and_data ?br (gen0\<lparr>gen_pos := 2\<rparr>) = Inr (idxs, datas, r')
           \<and> length (concat idxs) = length ?X
           \<and> (\<forall>i\<in>set (concat idxs). i < length ?X)
           \<and> np_concatenate datas = Inr (concat datas)
           \<and> length (concat datas) = length ?X
           \<and> (\<forall>row\<in>set (concat datas). length row = 1)"
    using resample_lengths [OF c m] .
  then have "length (concat [[0, 1], [0::nat]]) = length ?X
      \<and> np_concatenate [[[1], [2]], [[1::real]]] = Inr (concat [[[1], [2]], [[1]]])"
    using example_resample by auto
  then show ?thesis using c example_resample by simp
qed

section \<open>Two runs from one seed\<close>

lemma same_stream_refl: "same_stream r r"
  by (simp add: same_stream_def)















end
